theory Spec2Isabelle
  imports Main "HOL-Library.AList"
begin

section \<open>Strings and paths\<close>

text \<open>
  JavaScript strings are modelled as \<open>string\<close>, one \<open>char\<close> per code unit (code units
  below 256, which covers every ASCII path). \<open>undefined\<close> is \<open>None\<close> of an option type.
\<close>

text \<open>\<^verbatim>\<open>s.split('/')\<close>: the result always has at least one element.\<close>

fun splitSlash :: "string \<Rightarrow> string list" where
  "splitSlash [] = [[]]"
| "splitSlash (c # cs) =
     (if c = CHR ''/'' then [] # splitSlash cs
      else (case splitSlash cs of [] \<Rightarrow> [[c]] | s # ss \<Rightarrow> (c # s) # ss))"

text \<open>\<^verbatim>\<open>a.join('/')\<close>.\<close>

fun joinSlash :: "string list \<Rightarrow> string" where
  "joinSlash [] = []"
| "joinSlash [s] = s"
| "joinSlash (s # ss) = s @ ''/'' @ joinSlash ss"

text \<open>
  The loop of \<open>relativePath\<close>:
  \<^verbatim>\<open>while (fromSplit.length !== 0 && fromSplit[0] === toSplit[0]) { shift both }\<close>.
  When \<open>toSplit\<close> is empty, \<open>toSplit[0]\<close> is \<open>undefined\<close>, which no string equals.
\<close>

fun dropCommon :: "string list \<Rightarrow> string list \<Rightarrow> string list \<times> string list" where
  "dropCommon (f # fs) (t # ts) = (if f = t then dropCommon fs ts else (f # fs, t # ts))"
| "dropCommon fs ts = (fs, ts)"

text \<open>
  \<open>relativePath\<close> of the current revision of the server (the one with
  \<^verbatim>\<open>fromSplit.pop()\<close> and the \<^verbatim>\<open>relative || './'\<close> corner case).
\<close>

definition relativePath :: "string \<Rightarrow> string \<Rightarrow> string" where
  "relativePath from to =
     (let fromSplit = butlast (splitSlash from);
          toSplit = splitSlash to;
          toFile = last toSplit;
          (fromRest, toRest) = dropCommon fromSplit (butlast toSplit);
          relative = concat (replicate (length fromRest) ''../'') @ joinSlash (toRest @ [toFile])
      in if relative = [] then ''./'' else relative)"

text \<open>
  The platform's resolution of a relative reference against a base path, as the
  repository's test of \<open>relativePath\<close> uses it (\<^verbatim>\<open>new URL(want, fromUrl)\<close>): the
  reference is merged with the base path without its last segment, then \<open>.\<close> and \<open>..\<close>
  segments are removed; a final \<open>.\<close> or \<open>..\<close> leaves a trailing slash. Paths are given
  without their leading slash.
\<close>

fun removeDotSegments :: "string list \<Rightarrow> string list \<Rightarrow> string list" where
  "removeDotSegments acc [] = rev acc"
| "removeDotSegments acc [s] =
     (if s = ''.'' then rev ([] # acc)
      else if s = ''..'' then rev ([] # tl acc)
      else rev (s # acc))"
| "removeDotSegments acc (s # ss) =
     (if s = ''.'' then removeDotSegments acc ss
      else if s = ''..'' then removeDotSegments (tl acc) ss
      else removeDotSegments (s # acc) ss)"

definition resolveReference :: "string \<Rightarrow> string \<Rightarrow> string" where
  "resolveReference base ref =
     joinSlash (removeDotSegments [] (butlast (splitSlash base) @ splitSlash ref))"

section \<open>Associators\<close>

text \<open>
  A bundle's member list holds module paths and \<open>Alias\<close> objects
  (\<^verbatim>\<open>new Alias(alias, target)\<close>).
\<close>

datatype member = Module string | Alias string string

datatype error =
    BundleAlreadyDefined string
  | ConflictingDefinition string
  | AliasLoop string
  | TypeError

text \<open>
  The pair \<^verbatim>\<open>[bundleToModules, moduleToBundle]\<close>; \<open>hasOwnProperty\<close> is membership in
  the domain.
\<close>

type_synonym associations = "(string \<rightharpoonup> member list) \<times> (string \<rightharpoonup> string)"

text \<open>
  The locals of \<open>associationsForSimpleMapping\<close>. \<open>indirections\<close> is a \<open>Map\<close>, iterated
  in insertion order: an association list where setting a present key keeps its place.
\<close>

record build =
  bundleToModules :: "string \<rightharpoonup> member list"
  moduleToBundle :: "string \<rightharpoonup> string"
  indirections :: "(string \<times> string option) list"

text \<open>A loop whose body may throw: the first error ends it.\<close>

fun foldE :: "('a \<Rightarrow> 's \<Rightarrow> error + 's) \<Rightarrow> 'a list \<Rightarrow> 's \<Rightarrow> error + 's" where
  "foldE f [] s = Inr s"
| "foldE f (x # xs) s = (case f x s of Inl e \<Rightarrow> Inl e | Inr s' \<Rightarrow> foldE f xs s')"

text \<open>
  \<^verbatim>\<open>module instanceof Alias ? module.alias : module\<close> and
  \<^verbatim>\<open>module instanceof Alias ? module.target : null\<close>.
\<close>

fun moduleNameOf :: "member \<Rightarrow> string" where
  "moduleNameOf (Alias a t) = a"
| "moduleNameOf (Module m) = m"

fun targetNameOf :: "member \<Rightarrow> string option" where
  "targetNameOf (Alias a t) = Some t"
| "targetNameOf (Module m) = None"

fun isAlias :: "member \<Rightarrow> bool" where
  "isAlias (Alias a t) = True"
| "isAlias (Module m) = False"

text \<open>The body of the inner loop \<^verbatim>\<open>for (const module of modules)\<close>.\<close>

definition addModule :: "string list \<Rightarrow> string \<Rightarrow> member \<Rightarrow> build \<Rightarrow> error + build" where
  "addModule keys bundle module st =
     (let moduleName = moduleNameOf module;
          targetName = targetNameOf module
      in if map_of (indirections st) moduleName \<noteq> None \<and>
            map_of (indirections st) moduleName \<noteq> Some targetName
         then Inl (ConflictingDefinition moduleName)
         else
           let st' = st\<lparr>indirections := AList.update moduleName targetName (indirections st)\<rparr>
           in if isAlias module then Inr st'
              else if moduleName \<notin> set keys \<or> moduleName = bundle
              then Inr (st'\<lparr>moduleToBundle := (moduleToBundle st')(moduleName \<mapsto> bundle)\<rparr>)
              else Inr st')"

text \<open>
  The body of the outer loop \<^verbatim>\<open>for (const [bundle, modules] of Object.entries(mapping))\<close>;
  \<open>keys\<close> are the own keys of \<open>mapping\<close>.
\<close>

definition addBundle :: "string list \<Rightarrow> string \<times> member list \<Rightarrow> build \<Rightarrow> error + build" where
  "addBundle keys entry st =
     (case entry of (bundle, modules) \<Rightarrow>
        if bundleToModules st bundle \<noteq> None then Inl (BundleAlreadyDefined bundle)
        else foldE (addModule keys bundle) modules
               (st\<lparr>bundleToModules := (bundleToModules st)(bundle \<mapsto> modules)\<rparr>))"

text \<open>
  The \<open>while (next != null)\<close> loop that follows an alias to its real path, with the
  \<open>seen\<close> set. \<open>indirections.get(next)\<close> is \<open>undefined\<close> for a missing key and \<open>null\<close>
  for a module that is no alias; both end the loop.
\<close>

definition getIndirection :: "(string \<times> string option) list \<Rightarrow> string \<Rightarrow> string option" where
  "getIndirection ind k = (case map_of ind k of None \<Rightarrow> None | Some t \<Rightarrow> t)"

function resolveReal ::
  "(string \<times> string option) list \<Rightarrow> string \<Rightarrow> string set \<Rightarrow> string \<Rightarrow> string option
     \<Rightarrow> error + string" where
  "resolveReal ind moduleName seen real None = Inr real"
| "resolveReal ind moduleName seen real (Some next) =
     (if next \<in> seen then Inl (AliasLoop moduleName)
      else resolveReal ind moduleName (insert next seen) next (getIndirection ind next))"
  by pat_completeness auto
termination
proof (relation "measure (\<lambda>(ind, moduleName, seen, real, next).
          2 * card (fst ` set ind - seen) + (case next of None \<Rightarrow> 0 | Some _ \<Rightarrow> 1))")
  show "wf (measure (\<lambda>(ind, moduleName, seen, real, next).
          2 * card (fst ` set ind - seen) + (case next of None \<Rightarrow> 0 | Some _ \<Rightarrow> (1::nat))))"
    by simp
next
  fix ind :: "(string \<times> string option) list" and moduleName :: string
    and seen :: "string set" and real :: string and "next" :: string
  assume fresh: "next \<notin> seen"
  show "((ind, moduleName, insert next seen, next, getIndirection ind next),
         (ind, moduleName, seen, real, Some next))
        \<in> measure (\<lambda>(ind, moduleName, seen, real, next).
          2 * card (fst ` set ind - seen) + (case next of None \<Rightarrow> 0 | Some _ \<Rightarrow> 1))"
  proof (cases "getIndirection ind next")
    case None
    have "card (fst ` set ind - insert next seen) \<le> card (fst ` set ind - seen)"
      by (rule card_mono) auto
    with None show ?thesis by simp
  next
    case (Some t)
    then have "next \<in> fst ` set ind"
      by (auto simp: getIndirection_def split: option.splits dest: map_of_SomeD intro: rev_image_eqI)
    with fresh have "card (fst ` set ind - insert next seen) < card (fst ` set ind - seen)"
      by (intro psubset_card_mono) auto
    with Some show ?thesis by simp
  qed
qed

text \<open>The body of the second loop \<^verbatim>\<open>for (const [moduleName, target] of indirections)\<close>.\<close>

definition resolveIndirection ::
  "(string \<times> string option) list \<Rightarrow> string \<times> string option \<Rightarrow> (string \<rightharpoonup> string)
     \<Rightarrow> error + (string \<rightharpoonup> string)" where
  "resolveIndirection ind entry m2b =
     (case entry of (moduleName, target) \<Rightarrow>
        (case resolveReal ind moduleName {moduleName} moduleName target of
           Inl e \<Rightarrow> Inl e
         | Inr real \<Rightarrow>
             Inr (m2b(moduleName \<mapsto> (case m2b real of Some b \<Rightarrow> b | None \<Rightarrow> real)))))"

text \<open>
  \<open>associationsForSimpleMapping\<close> (the revision with aliases). The argument is the
  mapping as \<open>Object.entries\<close> lists it.
\<close>

definition emptyBuild :: build where
  "emptyBuild = \<lparr>bundleToModules = Map.empty, moduleToBundle = Map.empty, indirections = []\<rparr>"

definition associationsForSimpleMapping ::
  "(string \<times> member list) list \<Rightarrow> error + associations" where
  "associationsForSimpleMapping mapping =
     (case foldE (addBundle (map fst mapping)) mapping emptyBuild of
        Inl e \<Rightarrow> Inl e
      | Inr st \<Rightarrow>
          (case foldE (resolveIndirection (indirections st)) (indirections st) (moduleToBundle st) of
             Inl e \<Rightarrow> Inl e
           | Inr m2b \<Rightarrow> Inr (bundleToModules st, m2b)))"

text \<open>
  The regular expression of \<open>SimpleAssociator\<close>,
  \<^verbatim>\<open>/\.js$|(?:^|\/)index\.js$|.\/+$/\<close>: every alternative is anchored at the end, so a
  match at a position is a property of the suffix from there; \<open>.\<close> matches no line
  terminator. \<open>replace\<close> removes the leftmost match.
\<close>

definition isLineTerminator :: "char \<Rightarrow> bool" where
  "isLineTerminator c \<longleftrightarrow> c = CHR 0x0A \<or> c = CHR 0x0D"

definition suffixMatches :: "bool \<Rightarrow> string \<Rightarrow> bool" where
  "suffixMatches atStart s \<longleftrightarrow>
     s = ''.js'' \<or> (atStart \<and> s = ''index.js'') \<or> s = ''/index.js'' \<or>
     (case s of [] \<Rightarrow> False
      | c # r \<Rightarrow> \<not> isLineTerminator c \<and> r \<noteq> [] \<and> list_all (\<lambda>x. x = CHR ''/'') r)"

fun replaceSuffix :: "bool \<Rightarrow> string \<Rightarrow> string" where
  "replaceSuffix atStart [] = []"
| "replaceSuffix atStart (c # cs) =
     (if suffixMatches atStart (c # cs) then [] else c # replaceSuffix False cs)"

definition simpleModulePaths :: "string \<Rightarrow> string list" where
  "simpleModulePaths modulePath =
     (let modulePath = replaceSuffix True modulePath
      in [modulePath, modulePath @ ''.js'', modulePath @ ''/index.js''])"

text \<open>
  The three associator classes; a \<open>StaticAssociator\<close> holds its tables and its \<open>next\<close>
  associator.
\<close>

datatype associator =
    IdentityAssociator
  | SimpleAssociator
  | StaticAssociator associations associator

fun preferredPath :: "associator \<Rightarrow> string \<Rightarrow> string" where
  "preferredPath IdentityAssociator modulePath = modulePath"
| "preferredPath SimpleAssociator modulePath = hd (simpleModulePaths modulePath)"
| "preferredPath (StaticAssociator assocs nxt) modulePath =
     (case snd assocs modulePath of
        Some b \<Rightarrow> b
      | None \<Rightarrow> preferredPath nxt modulePath)"

fun associatedModulePaths :: "associator \<Rightarrow> string \<Rightarrow> member list" where
  "associatedModulePaths IdentityAssociator modulePath = [Module modulePath]"
| "associatedModulePaths SimpleAssociator modulePath = map Module (simpleModulePaths modulePath)"
| "associatedModulePaths (StaticAssociator assocs nxt) modulePath =
     (let modulePath = preferredPath (StaticAssociator assocs nxt) modulePath
      in case fst assocs modulePath of
           Some ms \<Rightarrow> ms
         | None \<Rightarrow> associatedModulePaths nxt modulePath)"

text \<open>
  A \<open>StaticAssociator\<close> over the tables of a simple mapping, with the default
  \<open>IdentityAssociator\<close> as \<open>next\<close>
  (\<^verbatim>\<open>new StaticAssociator(associationsForSimpleMapping(manifest))\<close>).
\<close>

definition staticAssociatorFor :: "(string \<times> member list) list \<Rightarrow> error + associator" where
  "staticAssociatorFor mapping =
     (case associationsForSimpleMapping mapping of
        Inl e \<Rightarrow> Inl e
      | Inr assocs \<Rightarrow> Inr (StaticAssociator assocs IdentityAssociator))"

section \<open>The server\<close>

subsection \<open>Headers and the platform\<close>

text \<open>
  A header object maps lower-case header names to string values. \<open>Date.parse\<close> and
  \<open>Date.prototype.toUTCString\<close> belong to the platform and are parameters: \<open>Date.parse\<close>
  returns a time value in milliseconds or \<open>NaN\<close> (\<open>None\<close>); of an absent header
  (\<open>undefined\<close>) it is \<open>NaN\<close>. Numbers are mathematical integers; the source's doubles
  agree with them below \<open>2^53\<close>.
\<close>

type_synonym headers = "string \<rightharpoonup> string"

definition parseDate :: "(string \<Rightarrow> int option) \<Rightarrow> string option \<Rightarrow> int option" where
  "parseDate Date_parse v = (case v of None \<Rightarrow> None | Some s \<Rightarrow> Date_parse s)"

definition HEADER_WHITELIST :: "string list" where
  "HEADER_WHITELIST = [''date'', ''last-modified'', ''expires'', ''cache-control'', ''content-type'']"

definition selectProperties :: "headers \<Rightarrow> string list \<Rightarrow> headers" where
  "selectProperties obj keys = (\<lambda>key. if key \<in> set keys then obj key else None)"

text \<open>Truthiness of an optional string: defined and not empty.\<close>

definition truthy :: "string option \<Rightarrow> bool" where
  "truthy v \<longleftrightarrow> v \<noteq> None \<and> v \<noteq> Some []"

text \<open>String conversion of a possibly undefined string, as \<open>+\<close> and \<open>indexOf\<close> do it.\<close>

definition jsString :: "string option \<Rightarrow> string" where
  "jsString v = (case v of None \<Rightarrow> ''undefined'' | Some s \<Rightarrow> s)"

subsection \<open>mergeHeaders\<close>

definition isDigit :: "char \<Rightarrow> bool" where
  "isDigit c \<longleftrightarrow> c \<in> set ''0123456789''"

definition parseDecimal :: "string \<Rightarrow> nat" where
  "parseDecimal ds = foldl (\<lambda>n c. 10 * n + (of_char c - 48)) 0 ds"

fun showDecimal :: "nat \<Rightarrow> string" where
  "showDecimal n =
     (if n < 10 then [''0123456789'' ! n]
      else showDecimal (n div 10) @ [''0123456789'' ! (n mod 10)])"

declare showDecimal.simps [simp del]

text \<open>
  \<^verbatim>\<open>parseInt((h['cache-control'] || '').match(/(?:max-age=(\d+))?/)[1], 10)\<close>: the
  pattern is not anchored but its only group is optional, so the match is at index 0, and
  the group is defined only when the value starts with \<open>max-age=\<close> and a digit.
\<close>

definition maxAgeOf :: "string option \<Rightarrow> nat option" where
  "maxAgeOf v =
     (let s = (if truthy v then jsString v else []);
          ds = takeWhile isDigit (drop 8 s)
      in if take 8 s = ''max-age='' \<and> ds \<noteq> [] then Some (parseDecimal ds) else None)"

text \<open>
  \<open>Math.max(...values)\<close> and \<open>Math.min(...values)\<close>, converted back to text. Of no values
  they are \<open>-Infinity\<close> and \<open>Infinity\<close>, which is no valid date.
\<close>

definition latest :: "(int \<Rightarrow> string) \<Rightarrow> int list \<Rightarrow> string" where
  "latest toUTCString values =
     (case values of [] \<Rightarrow> ''Invalid Date'' | v # vs \<Rightarrow> toUTCString (fold max vs v))"

definition earliest :: "(int \<Rightarrow> string) \<Rightarrow> int list \<Rightarrow> string" where
  "earliest toUTCString values =
     (case values of [] \<Rightarrow> ''Invalid Date'' | v # vs \<Rightarrow> toUTCString (fold min vs v))"

definition smallestMaxAge :: "nat list \<Rightarrow> string" where
  "smallestMaxAge values =
     ''max-age='' @ (case values of [] \<Rightarrow> ''Infinity'' | v # vs \<Rightarrow> showDecimal (fold min vs v))"

text \<open>
  \<open>mergeHeaders\<close>. \<^verbatim>\<open>values.every((value) => !isNaN(value))\<close> is \<open>those values \<noteq> None\<close>,
  and then \<open>those\<close> gives the numbers.
\<close>

definition mergeHeaders ::
  "(string \<Rightarrow> int option) \<Rightarrow> (int \<Rightarrow> string) \<Rightarrow> headers list \<Rightarrow> headers" where
  "mergeHeaders Date_parse toUTCString headersList =
     (let headers0 = Map.empty;
          headers1 =
            (case those (map (\<lambda>h. parseDate Date_parse (h ''date'')) headersList) of
               Some values \<Rightarrow> headers0(''date'' \<mapsto> latest toUTCString values)
             | None \<Rightarrow> headers0);
          headers2 =
            (case those (map (\<lambda>h. parseDate Date_parse (h ''last-modified'')) headersList) of
               Some values \<Rightarrow> headers1(''last-modified'' \<mapsto> latest toUTCString values)
             | None \<Rightarrow> headers1);
          headers3 =
            (case those (map (\<lambda>h. parseDate Date_parse (h ''expires'')) headersList) of
               Some values \<Rightarrow> headers2(''expires'' \<mapsto> earliest toUTCString values)
             | None \<Rightarrow> headers2)
      in (case those (map (\<lambda>h. maxAgeOf (h ''cache-control'')) headersList) of
            Some values \<Rightarrow> headers3(''cache-control'' \<mapsto> smallestMaxAge values)
          | None \<Rightarrow> headers3))"

subsection \<open>notModified\<close>

text \<open>
  The two disjuncts of \<open>notModified\<close>, as truth values:
  \<^verbatim>\<open>requestHeaders.etag && requestHeaders.etag === responseHeaders.etag\<close> and
  \<^verbatim>\<open>lastModified && lastModified <= modifiedSince\<close>. A number is falsy when it is \<open>NaN\<close>
  or \<open>0\<close>; a comparison with \<open>NaN\<close> is false.
\<close>

definition etagMatches :: "headers \<Rightarrow> headers \<Rightarrow> bool" where
  "etagMatches requestHeaders responseHeaders \<longleftrightarrow>
     truthy (requestHeaders ''etag'') \<and> requestHeaders ''etag'' = responseHeaders ''etag''"

definition notModifiedSince :: "int option \<Rightarrow> int option \<Rightarrow> bool" where
  "notModifiedSince lastModified modifiedSince \<longleftrightarrow>
     (case lastModified of
        None \<Rightarrow> False
      | Some l \<Rightarrow> l \<noteq> 0 \<and> (case modifiedSince of None \<Rightarrow> False | Some m \<Rightarrow> l \<le> m))"

definition notModified :: "(string \<Rightarrow> int option) \<Rightarrow> headers \<Rightarrow> headers \<Rightarrow> bool" where
  "notModified Date_parse requestHeaders responseHeaders \<longleftrightarrow>
     (let lastModified = parseDate Date_parse (responseHeaders ''last-modified'');
          modifiedSince = parseDate Date_parse (requestHeaders ''if-modified-since'')
      in etagMatches requestHeaders responseHeaders \<or> notModifiedSince lastModified modifiedSince)"

subsection \<open>packagedDefine\<close>

definition isAlphanumeric :: "char \<Rightarrow> bool" where
  "isAlphanumeric c \<longleftrightarrow>
     c \<in> set ''0123456789ABCDEFGHIJKLMNOPQRSTUVWXYZabcdefghijklmnopqrstuvwxyz''"

text \<open>\<^verbatim>\<open>n.toString(16)\<close>.\<close>

fun showHex :: "nat \<Rightarrow> string" where
  "showHex n =
     (if n < 16 then [''0123456789abcdef'' ! n]
      else showHex (n div 16) @ [''0123456789abcdef'' ! (n mod 16)])"

declare showHex.simps [simp del]

text \<open>
  \<open>escapeNonAlphanumerics\<close>: every character outside \<open>[0-9A-Za-z]\<close> and outside the
  exceptions becomes \<^verbatim>\<open>\uXXXX\<close>, the last four characters of \<open>000\<close> followed by the
  hexadecimal character code.
\<close>

definition escapeChar :: "string \<Rightarrow> char \<Rightarrow> string" where
  "escapeChar exceptions c =
     (if isAlphanumeric c \<or> c \<in> set exceptions then [c]
      else (let padded = ''000'' @ showHex (of_char c)
            in [CHR 0x5C, CHR ''u''] @ drop (length padded - 4) padded))"

definition escapeNonAlphanumerics :: "string \<Rightarrow> string \<Rightarrow> string" where
  "escapeNonAlphanumerics text exceptions = concat (map (escapeChar exceptions) text)"

text \<open>
  A JavaScript object with string keys: its own properties in creation order.
  \<open>Object.fromEntries\<close> creates a property for a new key and overwrites the value of a
  present one. \<open>Object.entries\<close> lists the array-index keys (canonical decimal numerals
  below \<open>2^32 - 1\<close>) first, in ascending numeric order, then the other keys in creation
  order.
\<close>

definition fromEntries :: "(string \<times> 'v) list \<Rightarrow> (string \<times> 'v) list" where
  "fromEntries es = foldl (\<lambda>obj e. AList.update (fst e) (snd e) obj) [] es"

definition isArrayIndex :: "string \<Rightarrow> bool" where
  "isArrayIndex key \<longleftrightarrow>
     key \<noteq> [] \<and> list_all isDigit key \<and> (key = ''0'' \<or> hd key \<noteq> CHR ''0'') \<and>
     parseDecimal key < 2 ^ 32 - 1"

definition entries :: "(string \<times> 'v) list \<Rightarrow> (string \<times> 'v) list" where
  "entries obj =
     sort_key (\<lambda>e. parseDecimal (fst e)) (filter (\<lambda>e. isArrayIndex (fst e)) obj) @
     filter (\<lambda>e. \<not> isArrayIndex (fst e)) obj"

text \<open>
  One iteration of the loop of \<open>packagedDefine\<close>: the text appended for a path and its
  body, where the body \<open>null\<close> is \<open>None\<close>.
\<close>

definition moduleEntry :: "string \<times> string option \<Rightarrow> string" where
  "moduleEntry e =
     (let pathEsc = escapeNonAlphanumerics (fst e) ''./-_'';
          nl = [CHR 0x22] @ ''(module '' @ pathEsc @ '')'' @ [CHR 0x22]
      in [CHR 0x22] @ pathEsc @ [CHR 0x22] @ '': '' @
         (case snd e of
            None \<Rightarrow> ''null''
          | Some body \<Rightarrow>
              ''{'' @ nl @ '': function (require, exports, module) {'' @ body @ ''}}['' @ nl @ '']'') @
         '','' @ [CHR 0x0A])"

definition packagedDefine :: "string \<Rightarrow> (string \<times> string option) list \<Rightarrow> string" where
  "packagedDefine JSONPCallback moduleMap =
     JSONPCallback @ ''({'' @ concat (map moduleEntry (entries moduleMap)) @ ''});'' @ [CHR 0x0A]"

text \<open>
  The module map of a bundle response:
  \<^verbatim>\<open>Object.fromEntries(modulePaths.map((m, i) => [m, statuss[i] === 200 ? contents[i] : null]))\<close>.
  An index past the end of \<open>statuss\<close> reads \<open>undefined\<close>, which is not 200; one past the
  end of \<open>contents\<close> reads \<open>undefined\<close>, which the template prints as such.
\<close>

definition bodyAt :: "int list \<Rightarrow> string list \<Rightarrow> nat \<Rightarrow> string option" where
  "bodyAt statuss contents i =
     (if i < length statuss \<and> statuss ! i = 200
      then Some (if i < length contents then contents ! i else ''undefined'')
      else None)"

definition moduleMapOf :: "string list \<Rightarrow> int list \<Rightarrow> string list \<Rightarrow> (string \<times> string option) list" where
  "moduleMapOf modulePaths statuss contents =
     fromEntries (map (\<lambda>i. (modulePaths ! i, bodyAt statuss contents i)) [0..<length modulePaths])"

subsection \<open>Server.handle\<close>

text \<open>
  The fields of a \<open>Server\<close> that \<open>handle\<close> reads; a field the constructor did not set is
  \<open>None\<close>.
\<close>

record server =
  rootPath :: "string option"
  rootURI :: "string option"
  libraryPath :: "string option"
  libraryURI :: "string option"
  baseURI :: "string option"
  associatorOf :: "associator option"

text \<open>
  The parsed request URL (\<^verbatim>\<open>new URL(request.url, 'ignored-scheme:/')\<close>) with the fields
  that are read; \<open>callback\<close> is \<^verbatim>\<open>url.searchParams.get('callback')\<close>, \<open>None\<close> when the
  parameter is absent. A URL that does not parse is \<open>None\<close> in the request.
\<close>

record parsedURL =
  pathname :: string
  search :: string
  callback :: "string option"

record request =
  requestURL :: "parsedURL option"
  requestMethod :: string
  requestHeadersOf :: headers

text \<open>
  What \<open>handle\<close> uses without defining it: the platform's date functions and
  \<open>path.posix.normalize\<close>, and the two fetch functions of the repository's request module,
  which give a status, headers and content for one URI, or a list of each for a list of
  URIs.
\<close>

record environment =
  Date_parse :: "string \<Rightarrow> int option"
  toUTCString :: "int \<Rightarrow> string"
  normalizePath :: "string \<Rightarrow> string"
  requestURI :: "string \<Rightarrow> string \<Rightarrow> headers \<Rightarrow> int \<times> headers \<times> string option"
  requestURIs :: "string list \<Rightarrow> string \<Rightarrow> headers \<Rightarrow> int list \<times> headers list \<times> string list"

text \<open>
  The end of a request: a response (status, headers, written body), the call \<open>next()\<close>,
  an exception, which \<open>handle\<close> passes to \<open>next(err)\<close>, or a return without any
  response (the last \<open>else\<close> of the bundle path, for a method that is neither HEAD nor
  GET, which \<open>handle\<close> has excluded before).
\<close>

datatype outcome =
    Response int headers "string option"
  | Next
  | NextError error
  | Unanswered

definition textPlain :: headers where
  "textPlain = [''content-type'' \<mapsto> ''text/plain; charset=utf-8'']"

definition notFoundBody :: string where
  "notFoundBody = ''404: The requested resource could not be found.''"

text \<open>
  The module path of a normalized request path. \<open>path.indexOf(prefix) === 0\<close> is a
  prefix test, of the text \<open>undefined\<close> for an unset prefix, whose \<open>length\<close> then throws.
  The result \<open>None\<close> is \<open>undefined\<close>.
\<close>

definition startsWith :: "string \<Rightarrow> string \<Rightarrow> bool" where
  "startsWith s pre \<longleftrightarrow> take (length pre) s = pre"

definition modulePathOf :: "server \<Rightarrow> string \<Rightarrow> error + string option" where
  "modulePathOf srv path =
     (if startsWith path (jsString (rootPath srv))
      then (case rootPath srv of
              None \<Rightarrow> Inl TypeError
            | Some r \<Rightarrow> Inr (Some (''/'' @ drop (length r) path)))
      else if truthy (libraryURI srv) \<and> startsWith path (jsString (libraryPath srv))
      then (case libraryPath srv of
              None \<Rightarrow> Inl TypeError
            | Some l \<Rightarrow> Inr (Some (drop (length l) path)))
      else Inr None)"

text \<open>\<open>_resourceURIForModulePath\<close>; of an \<open>Alias\<close> object \<open>path.startsWith\<close> is no function.\<close>

definition resourceURIForModulePath :: "server \<Rightarrow> member \<Rightarrow> error + string" where
  "resourceURIForModulePath srv m =
     (case m of
        Alias a t \<Rightarrow> Inl TypeError
      | Module path \<Rightarrow>
          Inr (if startsWith path ''/'' then jsString (rootURI srv) @ drop 1 path
               else jsString (libraryURI srv) @ path))"

fun resourceURIsFor :: "server \<Rightarrow> member list \<Rightarrow> error + string list" where
  "resourceURIsFor srv [] = Inr []"
| "resourceURIsFor srv (m # ms) =
     (case resourceURIForModulePath srv m of
        Inl e \<Rightarrow> Inl e
      | Inr uri \<Rightarrow> (case resourceURIsFor srv ms of Inl e \<Rightarrow> Inl e | Inr uris \<Rightarrow> Inr (uri # uris)))"

text \<open>\<^verbatim>\<open>JSONPCallback.match(/^[a-zA-Z0-9$:._'"\\()[\]{}]+$/)\<close>.\<close>

definition isCallbackChar :: "char \<Rightarrow> bool" where
  "isCallbackChar c \<longleftrightarrow>
     isAlphanumeric c \<or> c \<in> set ''$:._()[]{}'' \<or> c = CHR 0x27 \<or> c = CHR 0x22 \<or> c = CHR 0x5C"

definition callbackExpressionText :: string where
  "callbackExpressionText =
     ''/^[a-zA-Z0-9$:._'' @ [CHR 0x27, CHR 0x22, CHR 0x5C, CHR 0x5C] @ ''()['' @ [CHR 0x5C] @
     '']{}]+$/''"

definition matchesCallbackExpression :: "string \<Rightarrow> bool" where
  "matchesCallbackExpression cb \<longleftrightarrow> cb \<noteq> [] \<and> list_all isCallbackChar cb"

text \<open>
  \<^verbatim>\<open>statuss.reduce((m, s) => m && m === s ? m : undefined)\<close>: without an initial value
  the first status starts the reduction, and an empty array throws; \<open>undefined\<close> and \<open>0\<close>
  are falsy.
\<close>

definition reduceStep :: "int option \<Rightarrow> int \<Rightarrow> int option" where
  "reduceStep m s = (if m \<noteq> None \<and> m \<noteq> Some 0 \<and> m = Some s then m else None)"

definition reduceStatus :: "int list \<Rightarrow> error + int option" where
  "reduceStatus statuss =
     (case statuss of [] \<Rightarrow> Inl TypeError | s # ss \<Rightarrow> Inr (foldl reduceStep (Some s) ss))"

text \<open>
  The three ways on after the HEAD requests of a bundle: answer 304, answer from the HEAD
  responses alone, or issue the GET requests.
\<close>

datatype branch = Answer304 | AnswerFromHead | IssueGet

definition headBranch :: "int option \<Rightarrow> bool \<Rightarrow> string \<Rightarrow> branch" where
  "headBranch status unmodified method =
     (if status = Some 304 \<or> unmodified then Answer304
      else if method = ''HEAD'' \<and> status \<noteq> Some 405 then AnswerFromHead
      else IssueGet)"

text \<open>
  The HEAD phase: the reduced status and merged headers of the HEAD responses, and the
  way on.
\<close>

definition headPhase ::
  "environment \<Rightarrow> headers \<Rightarrow> string \<Rightarrow> int list \<Rightarrow> headers list
     \<Rightarrow> error + (int option \<times> headers \<times> branch)" where
  "headPhase env requestHeaders method statuss headerss =
     (case reduceStatus statuss of
        Inl e \<Rightarrow> Inl e
      | Inr status \<Rightarrow>
          (let headers = mergeHeaders (Date_parse env) (toUTCString env) headerss
           in Inr (status, headers,
                   headBranch status (notModified (Date_parse env) requestHeaders headers) method)))"

text \<open>The end of the bundle path: the headers sent and the final status, 304 or 200.\<close>

definition bundleHeaders :: "headers \<Rightarrow> headers" where
  "bundleHeaders headers =
     (selectProperties headers HEADER_WHITELIST)
       (''content-type'' \<mapsto> ''application/javascript; charset=utf-8'',
        ''x-content-type-options'' \<mapsto> ''nosniff'')"

definition respondBundle ::
  "environment \<Rightarrow> headers \<Rightarrow> int option \<Rightarrow> headers \<Rightarrow> string option \<Rightarrow> outcome" where
  "respondBundle env requestHeaders status headers content =
     (let headers = bundleHeaders headers;
          status = (if status = Some 304 \<or> notModified (Date_parse env) requestHeaders headers
                    then 304 else 200)
      in Response status headers (if truthy content then content else None))"

text \<open>The module paths of a checked list of members (no \<open>Alias\<close> is left in it).\<close>

definition pathsOf :: "member list \<Rightarrow> string list" where
  "pathsOf ms = map moduleNameOf ms"

text \<open>The bundle path behind the redirect check.\<close>

definition serveBundle ::
  "environment \<Rightarrow> server \<Rightarrow> string \<Rightarrow> headers \<Rightarrow> string \<Rightarrow> string \<Rightarrow> outcome" where
  "serveBundle env srv method requestHeaders JSONPCallback modulePath =
     (let modulePaths = (case associatorOf srv of
                           None \<Rightarrow> [Module modulePath]
                         | Some a \<Rightarrow> associatedModulePaths a modulePath)
      in case resourceURIsFor srv modulePaths of
           Inl e \<Rightarrow> NextError e
         | Inr resourceURIs \<Rightarrow>
             (case requestURIs env resourceURIs ''HEAD'' requestHeaders of
                (statuss, headerss, contents) \<Rightarrow>
                  (case headPhase env requestHeaders method statuss headerss of
                     Inl e \<Rightarrow> NextError e
                   | Inr (status, headers, Answer304) \<Rightarrow>
                       respondBundle env requestHeaders (Some 304) headers None
                   | Inr (status, headers, AnswerFromHead) \<Rightarrow>
                       respondBundle env requestHeaders status headers None
                   | Inr (status, headers, IssueGet) \<Rightarrow>
                       (let requestHeadersForGet =
                              selectProperties requestHeaders [''user-agent'', ''accept'', ''cache-control'']
                        in case requestURIs env resourceURIs ''GET'' requestHeadersForGet of
                             (statuss, headerss, contents) \<Rightarrow>
                               (case reduceStatus statuss of
                                  Inl e \<Rightarrow> NextError e
                                | Inr status \<Rightarrow>
                                    (let headers = mergeHeaders (Date_parse env) (toUTCString env) headerss
                                     in if method = ''HEAD''
                                        then respondBundle env requestHeaders status headers None
                                        else if method = ''GET''
                                        then respondBundle env requestHeaders status headers
                                               (Some (packagedDefine JSONPCallback
                                                  (moduleMapOf (pathsOf modulePaths) statuss contents)))
                                        else Unanswered))))))"

text \<open>The redirect to the preferred path.\<close>

definition redirectLocation :: "server \<Rightarrow> string \<Rightarrow> string \<Rightarrow> string \<Rightarrow> string" where
  "redirectLocation srv path preferred query =
     (let location = (if take 1 preferred = ''/'' then jsString (rootPath srv) @ drop 1 preferred
                      else jsString (libraryPath srv) @ preferred);
          location = (if truthy (baseURI srv) then jsString (baseURI srv) @ location
                      else relativePath path location)
      in location @ query)"

definition serverPreferredPath :: "server \<Rightarrow> string \<Rightarrow> string" where
  "serverPreferredPath srv modulePath =
     (case associatorOf srv of None \<Rightarrow> modulePath | Some a \<Rightarrow> preferredPath a modulePath)"

text \<open>The direct proxy of a request without a callback.\<close>

definition serveProxy :: "environment \<Rightarrow> server \<Rightarrow> string \<Rightarrow> headers \<Rightarrow> string \<Rightarrow> outcome" where
  "serveProxy env srv method requestHeaders modulePath =
     (case resourceURIForModulePath srv (Module modulePath) of
        Inl e \<Rightarrow> NextError e
      | Inr resourceURI \<Rightarrow>
          (case requestURI env resourceURI ''GET'' requestHeaders of
             (status, headers, content) \<Rightarrow>
               (let headers = selectProperties headers HEADER_WHITELIST;
                    written = (\<lambda>content. if method = ''GET'' \<and> truthy content then content else None)
                in if status = 200
                   then Response status
                          (headers(''content-type'' \<mapsto> ''application/javascript; charset=utf-8''))
                          (written content)
                   else if status = 404
                   then Response status
                          (headers(''content-type'' \<mapsto> ''text/plain; charset=utf-8''))
                          (written (Some notFoundBody))
                   else Response
                          (if notModified (Date_parse env) requestHeaders headers then 304 else status)
                          (headers(''content-type'' := None))
                          None)))"

text \<open>\<open>Server.handle\<close>; \<open>hasNext\<close> tells whether a \<open>next\<close> handler was passed.\<close>

definition handle :: "environment \<Rightarrow> server \<Rightarrow> request \<Rightarrow> bool \<Rightarrow> outcome" where
  "handle env srv rq hasNext =
     (case requestURL rq of
        None \<Rightarrow> Response 422 textPlain (Some ''422: Malformed URL'')
      | Some url \<Rightarrow>
          (let path = normalizePath env (pathname url)
           in case modulePathOf srv path of
                Inl e \<Rightarrow> NextError e
              | Inr modulePath \<Rightarrow>
                  (let requestHeaders =
                         [''user-agent'' \<mapsto> ''yajsml'', ''accept'' \<mapsto> ''*/*''] ++
                         selectProperties (requestHeadersOf rq) [''if-modified-since'', ''cache-control'']
                   in if \<not> truthy modulePath
                      then (if hasNext then Next else Response 404 textPlain (Some notFoundBody))
                      else if requestMethod rq \<noteq> ''HEAD'' \<and> requestMethod rq \<noteq> ''GET''
                      then Response 405 (textPlain(''allow'' \<mapsto> ''HEAD, GET''))
                             (Some ''405: Only the HEAD or GET methods are allowed.'')
                      else (case callback url of
                              None \<Rightarrow>
                                serveProxy env srv (requestMethod rq) requestHeaders (jsString modulePath)
                            | Some JSONPCallback \<Rightarrow>
                                if JSONPCallback = []
                                then Response 400 textPlain
                                       (Some (''400: The '' @ [CHR 0x27] @ ''callback'' @ [CHR 0x27] @
                                              '' parameter must be non-empty.''))
                                else if \<not> matchesCallbackExpression JSONPCallback
                                then Response 400 textPlain
                                       (Some (''400: The '' @ [CHR 0x27] @ ''callback'' @ [CHR 0x27] @
                                              '' parameter must match '' @ callbackExpressionText @ ''.''))
                                else (let preferred = serverPreferredPath srv (jsString modulePath)
                                      in if preferred \<noteq> jsString modulePath
                                         then Response 307
                                                [''Content-Type'' \<mapsto> ''text/plain; charset=utf-8'',
                                                 ''Location'' \<mapsto>
                                                   redirectLocation srv path preferred (search url)]
                                                (Some ''307: Resource moved temporarily.'')
                                         else serveBundle env srv (requestMethod rq) requestHeaders
                                                JSONPCallback (jsString modulePath))))))"

text \<open>
  What the first loop maintains: the keys of \<open>indirections\<close> are distinct, and a module
  with a bundle is a plain (non-alias) module, whose bundle is a key of the mapping and,
  when the module is itself such a key, the module itself.
\<close>

definition buildInv :: "string list \<Rightarrow> build \<Rightarrow> bool" where
  "buildInv keys st \<longleftrightarrow>
     distinct (map fst (indirections st)) \<and>
     (\<forall>m b. moduleToBundle st m = Some b \<longrightarrow>
        b \<in> set keys \<and> (m \<notin> set keys \<or> m = b) \<and> map_of (indirections st) m = Some None)"

text \<open>
  What the second loop stores for a key of \<open>indirections\<close>: the bundle of the real path
  its alias chain ends in, or that real path when it has no bundle.
\<close>

definition resolvedTo ::
  "(string \<times> string option) list \<Rightarrow> (string \<rightharpoonup> string) \<Rightarrow> string \<Rightarrow> string \<Rightarrow> bool" where
  "resolvedTo ind m0 k v \<longleftrightarrow>
     (\<exists>t r. (k, t) \<in> set ind \<and> resolveReal ind k {k} k t = Inr r \<and>
        getIndirection ind r = None \<and> v = (case m0 r of Some b \<Rightarrow> b | None \<Rightarrow> r))"

text \<open>The names declared as aliases anywhere in a mapping.\<close>

definition aliasNames :: "(string \<times> member list) list \<Rightarrow> string list" where
  "aliasNames mapping = concat (map (\<lambda>entry. map moduleNameOf (filter isAlias (snd entry))) mapping)"

text \<open>
  Lookups on the associator built for a mapping; an error of the construction is the
  result of the lookup.
\<close>

definition staticPreferredPath :: "(string \<times> member list) list \<Rightarrow> string \<Rightarrow> error + string" where
  "staticPreferredPath mapping modulePath =
     (case staticAssociatorFor mapping of
        Inl e \<Rightarrow> Inl e
      | Inr associator \<Rightarrow> Inr (preferredPath associator modulePath))"

definition staticAssociatedModulePaths ::
  "(string \<times> member list) list \<Rightarrow> string \<Rightarrow> error + member list" where
  "staticAssociatedModulePaths mapping modulePath =
     (case staticAssociatorFor mapping of
        Inl e \<Rightarrow> Inl e
      | Inr associator \<Rightarrow> Inr (associatedModulePaths associator modulePath))"

text \<open>\<^verbatim>\<open>regex.test(s)\<close> for the regular expression of \<open>SimpleAssociator\<close>.\<close>

fun suffixTest :: "bool \<Rightarrow> string \<Rightarrow> bool" where
  "suffixTest atStart [] = False"
| "suffixTest atStart (c # cs) = (suffixMatches atStart (c # cs) \<or> suffixTest False cs)"

text \<open>Example mappings.\<close>

definition chainIntoBundle :: "(string \<times> member list) list" where
  "chainIntoBundle =
     [(''/x.js'', [Module ''/x.js'', Module ''c'', Alias ''a'' ''b'', Alias ''b'' ''c''])]"



definition aliasedBundle :: "(string \<times> member list) list" where
  "aliasedBundle = [(''app'', [Module ''app/util.js'', Alias ''app'' ''app/main.js''])]"

text \<open>
  Example dates: the platform's \<open>Date.parse\<close> and \<open>toUTCString\<close> on the first three
  seconds of the epoch (other arguments are not used in the examples).
\<close>

definition date0 :: string where "date0 = ''Thu, 01 Jan 1970 00:00:00 GMT''"
definition date1 :: string where "date1 = ''Thu, 01 Jan 1970 00:00:01 GMT''"
definition date2 :: string where "date2 = ''Thu, 01 Jan 1970 00:00:02 GMT''"

definition exampleDateParse :: "string \<Rightarrow> int option" where
  "exampleDateParse s =
     (if s = date0 then Some 0 else if s = date1 then Some 1000
      else if s = date2 then Some 2000 else None)"

definition exampleToUTCString :: "int \<Rightarrow> string" where
  "exampleToUTCString t =
     (if t = 0 then date0 else if t = 1000 then date1 else if t = 2000 then date2
      else ''Invalid Date'')"



text \<open>The status of a response, when the request ended in one.\<close>

fun statusOf :: "outcome \<Rightarrow> int option" where
  "statusOf (Response status headers body) = Some status"
| "statusOf Next = None"
| "statusOf (NextError e) = None"
| "statusOf Unanswered = None"

fun bodyOf :: "outcome \<Rightarrow> string option" where
  "bodyOf (Response status headers body) = body"
| "bodyOf Next = None"
| "bodyOf (NextError e) = None"
| "bodyOf Unanswered = None"

text \<open>
  An example server: a backend with three library modules, of which \<open>b.js\<close> is missing,
  served as the bundle \<open>a.js\<close>, and requests for it.
\<close>

definition exampleBackend :: "string \<Rightarrow> int \<times> headers \<times> string" where
  "exampleBackend uri =
     (if uri = ''http://backend.example/a.js''
      then (200, [''last-modified'' \<mapsto> date1], ''exports.a = 1;'')
      else if uri = ''http://backend.example/b.js''
      then (404, [''last-modified'' \<mapsto> date1], ''Not found'')
      else if uri = ''http://backend.example/c.js''
      then (200, [''last-modified'' \<mapsto> date1], ''exports.c = 3;'')
      else (404, Map.empty, []))"

definition exampleEnvironment :: environment where
  "exampleEnvironment =
     \<lparr>Date_parse = exampleDateParse,
      toUTCString = exampleToUTCString,
      normalizePath = (\<lambda>path. path),
      requestURI = (\<lambda>uri method headers.
        (fst (exampleBackend uri), fst (snd (exampleBackend uri)),
         Some (snd (snd (exampleBackend uri))))),
      requestURIs = (\<lambda>uris method headers.
        (map (\<lambda>uri. fst (exampleBackend uri)) uris,
         map (\<lambda>uri. fst (snd (exampleBackend uri))) uris,
         map (\<lambda>uri. snd (snd (exampleBackend uri))) uris))\<rparr>"

definition exampleServer :: server where
  "exampleServer =
     \<lparr>rootPath = Some ''/root/'',
      rootURI = Some ''http://backend.example/root/'',
      libraryPath = Some ''/library/'',
      libraryURI = Some ''http://backend.example/'',
      baseURI = None,
      associatorOf = Some (StaticAssociator
        ([''a.js'' \<mapsto> [Module ''a.js'', Module ''b.js'', Module ''c.js'']],
         [''a.js'' \<mapsto> ''a.js'', ''b.js'' \<mapsto> ''a.js'', ''c.js'' \<mapsto> ''a.js''])
        IdentityAssociator)\<rparr>"

definition bundleRequest :: "string \<Rightarrow> headers \<Rightarrow> request" where
  "bundleRequest method headers =
     \<lparr>requestURL = Some \<lparr>pathname = ''/library/a.js'', search = ''?callback=cb'',
                          callback = Some ''cb''\<rparr>,
      requestMethod = method,
      requestHeadersOf = headers\<rparr>"

definition memberRequest :: request where
  "memberRequest =
     \<lparr>requestURL = Some \<lparr>pathname = ''/library/b.js'', search = ''?callback=x&y=1'',
                          callback = Some ''x''\<rparr>,
      requestMethod = ''GET'',
      requestHeadersOf = Map.empty\<rparr>"

text \<open>A header of a response, when the request ended in one.\<close>

fun headerOf :: "outcome \<Rightarrow> string \<Rightarrow> string option" where
  "headerOf (Response status headers body) name = headers name"
| "headerOf Next name = None"
| "headerOf (NextError e) name = None"
| "headerOf Unanswered name = None"

text \<open>
  The example server with the convention-based \<open>SimpleAssociator\<close>, and a GET request
  for a bundle by its path.
\<close>

definition simpleServer :: server where
  "simpleServer = exampleServer\<lparr>associatorOf := Some SimpleAssociator\<rparr>"

definition pathRequest :: "string \<Rightarrow> request" where
  "pathRequest path =
     \<lparr>requestURL = Some \<lparr>pathname = path, search = ''?callback=cb'', callback = Some ''cb''\<rparr>,
      requestMethod = ''GET'',
      requestHeadersOf = Map.empty\<rparr>"

section \<open>Relative paths\<close>

lemma relativePath_nonempty: "relativePath from to \<noteq> []"
  by (simp add: relativePath_def Let_def split: prod.splits)

text \<open>
  Claim C3. \<open>relativePath\<close> on the four literal pairs: from \<open>a\<close> to \<open>b\<close> is \<open>b\<close>, from
  \<open>a/\<close> to \<open>a\<close> is \<open>../a\<close>, from \<open>a\<close> to \<open>a/\<close> is \<open>a/\<close>, from \<open>a/b\<close> to \<open>a/\<close> is \<open>./\<close>;
  resolving each result against its from path gives the to path back, and the result is
  never the empty string.
\<close>

theorem relativePath_literal_cases:
  "relativePath ''a'' ''b'' = ''b'' \<and>
   relativePath ''a/'' ''a'' = ''../a'' \<and>
   relativePath ''a'' ''a/'' = ''a/'' \<and>
   relativePath ''a/b'' ''a/'' = ''./'' \<and>
   resolveReference ''a'' (relativePath ''a'' ''b'') = ''b'' \<and>
   resolveReference ''a/'' (relativePath ''a/'' ''a'') = ''a'' \<and>
   resolveReference ''a'' (relativePath ''a'' ''a/'') = ''a/'' \<and>
   resolveReference ''a/b'' (relativePath ''a/b'' ''a/'') = ''a/'' \<and>
   (\<forall>from to. relativePath from to \<noteq> [])"
proof -
  have lit: "relativePath ''a'' ''b'' = ''b''" "relativePath ''a/'' ''a'' = ''../a''"
    "relativePath ''a'' ''a/'' = ''a/''" "relativePath ''a/b'' ''a/'' = ''./''"
    by (simp_all add: relativePath_def)
  have res: "resolveReference ''a'' ''b'' = ''b''" "resolveReference ''a/'' ''../a'' = ''a''"
    "resolveReference ''a'' ''a/'' = ''a/''" "resolveReference ''a/b'' ''./'' = ''a/''"
    by (simp_all add: resolveReference_def)
  show ?thesis
    unfolding lit res using relativePath_nonempty by simp
qed

section \<open>Loops that may throw\<close>

lemma foldE_invariant:
  assumes run: "foldE f xs s = Inr s'" and init: "P s"
    and step: "\<And>x s s'. x \<in> set xs \<Longrightarrow> P s \<Longrightarrow> f x s = Inr s' \<Longrightarrow> P s'"
  shows "P s'"
proof -
  have "foldE f ys s = Inr s' \<Longrightarrow> P s \<Longrightarrow> set ys \<subseteq> set xs \<Longrightarrow> P s'" for ys s
  proof (induction ys arbitrary: s)
    case Nil
    then show ?case by simp
  next
    case (Cons y ys)
    from Cons.prems(1) obtain s1 where s1: "f y s = Inr s1" and rest: "foldE f ys s1 = Inr s'"
      by (auto split: sum.splits)
    have "y \<in> set xs" using Cons.prems(3) by simp
    then have "P s1" using step Cons.prems(2) s1 by blast
    moreover have "set ys \<subseteq> set xs" using Cons.prems(3) by simp
    ultimately show ?case using Cons.IH [OF rest] by blast
  qed
  from this [OF run init] show ?thesis by simp
qed



section \<open>The first loop of associationsForSimpleMapping\<close>

lemma addModule_Inr:
  assumes "addModule keys bndl x st = Inr st'"
  shows "map_of (indirections st) (moduleNameOf x) = None \<or>
         map_of (indirections st) (moduleNameOf x) = Some (targetNameOf x)"
    and "indirections st' = AList.update (moduleNameOf x) (targetNameOf x) (indirections st)"
    and "moduleToBundle st' =
          (if \<not> isAlias x \<and> (moduleNameOf x \<notin> set keys \<or> moduleNameOf x = bndl)
           then (moduleToBundle st)(moduleNameOf x \<mapsto> bndl) else moduleToBundle st)"
    and "bundleToModules st' = bundleToModules st"
  using assms by (auto simp: addModule_def Let_def split: if_splits)

lemma addModule_buildInv:
  assumes run: "addModule keys bndl x st = Inr st'" and inv: "buildInv keys st"
    and key: "bndl \<in> set keys"
  shows "buildInv keys st'"
proof -
  note r = addModule_Inr [OF run]
  have d: "distinct (map fst (indirections st'))"
    using inv by (simp add: r(2) buildInv_def distinct_update)
  have old: "map_of (indirections st') m = Some None" if "moduleToBundle st m = Some b" for m b
  proof -
    from that inv have m: "map_of (indirections st) m = Some None"
      unfolding buildInv_def by blast
    show ?thesis
    proof (cases "m = moduleNameOf x")
      case True
      with m r(1) have "targetNameOf x = None" by auto
      with True show ?thesis by (simp add: r(2) update_conv')
    next
      case False
      with m show ?thesis by (simp add: r(2) update_conv')
    qed
  qed
  have "b \<in> set keys \<and> (m \<notin> set keys \<or> m = b) \<and> map_of (indirections st') m = Some None"
    if new: "moduleToBundle st' m = Some b" for m b
  proof (cases "moduleToBundle st m = Some b")
    case True
    with inv old show ?thesis unfolding buildInv_def by blast
  next
    case False
    with new r(3) have upd: "\<not> isAlias x" "moduleNameOf x \<notin> set keys \<or> moduleNameOf x = bndl"
      "m = moduleNameOf x" "b = bndl"
      by (auto split: if_splits)
    from upd(1) have "targetNameOf x = None" by (cases x) auto
    then have "map_of (indirections st') m = Some None"
      by (simp add: r(2) update_conv' upd(3))
    with upd key show ?thesis by auto
  qed
  with d show ?thesis unfolding buildInv_def by blast
qed

lemma addBundle_Inr:
  assumes "addBundle keys (bndl, ms) st = Inr st'"
  shows "foldE (addModule keys bndl) ms
           (st\<lparr>bundleToModules := (bundleToModules st)(bndl \<mapsto> ms)\<rparr>) = Inr st'"
    and "bundleToModules st bndl = None"
  using assms by (auto simp: addBundle_def split: if_splits)

lemma addBundle_buildInv:
  assumes run: "addBundle keys entry st = Inr st'" and inv: "buildInv keys st"
    and key: "fst entry \<in> set keys"
  shows "buildInv keys st'"
proof -
  obtain bndl ms where e: "entry = (bndl, ms)" by (cases entry)
  note r = addBundle_Inr [OF run [unfolded e]]
  have "buildInv keys (st\<lparr>bundleToModules := (bundleToModules st)(bndl \<mapsto> ms)\<rparr>)"
    using inv by (simp add: buildInv_def)
  moreover have "\<And>x s s'. x \<in> set ms \<Longrightarrow> buildInv keys s \<Longrightarrow> addModule keys bndl x s = Inr s'
      \<Longrightarrow> buildInv keys s'"
    using key e by (auto intro: addModule_buildInv)
  ultimately show ?thesis
    by (rule foldE_invariant [where P = "buildInv keys", OF r(1)])
qed

lemma firstLoop_buildInv:
  assumes run: "foldE (addBundle (map fst mapping)) mapping emptyBuild = Inr st"
  shows "buildInv (map fst mapping) st"
proof (rule foldE_invariant [where P = "buildInv (map fst mapping)", OF run])
  show "buildInv (map fst mapping) emptyBuild"
    by (simp add: buildInv_def emptyBuild_def)
next
  fix x s s'
  assume "x \<in> set mapping" "buildInv (map fst mapping) s" "addBundle (map fst mapping) x s = Inr s'"
  then show "buildInv (map fst mapping) s'"
    by (intro addBundle_buildInv [of "map fst mapping" x s s']) auto
qed


lemma addModule_records:
  assumes run: "addModule keys bndl x st = Inr st'"
  shows "map_of (indirections st') (moduleNameOf x) = Some (targetNameOf x)"
  using addModule_Inr(2) [OF run] by (simp add: update_conv')




text \<open>Every alias entry of \<open>indirections\<close> comes from an \<open>Alias\<close> member.\<close>

lemma addModule_aliases:
  assumes run: "addModule keys bndl x st = Inr st'"
    and inv: "\<forall>k t. map_of (indirections st) k = Some (Some t) \<longrightarrow> Q k"
    and new: "isAlias x \<longrightarrow> Q (moduleNameOf x)"
  shows "\<forall>k t. map_of (indirections st') k = Some (Some t) \<longrightarrow> Q k"
proof (intro allI impI)
  fix k t assume a: "map_of (indirections st') k = Some (Some t)"
  show "Q k"
  proof (cases "k = moduleNameOf x")
    case True
    with a addModule_records [OF run] have "targetNameOf x = Some t" by simp
    then have "isAlias x" by (cases x) auto
    with new True show ?thesis by simp
  next
    case False
    with a addModule_Inr(2) [OF run] have "map_of (indirections st) k = Some (Some t)"
      by (simp add: update_conv')
    with inv show ?thesis by blast
  qed
qed

lemma addBundle_aliases:
  assumes run: "addBundle keys (bndl, ms) st = Inr st'"
    and inv: "\<forall>k t. map_of (indirections st) k = Some (Some t) \<longrightarrow> Q k"
    and new: "\<forall>x\<in>set ms. isAlias x \<longrightarrow> Q (moduleNameOf x)"
  shows "\<forall>k t. map_of (indirections st') k = Some (Some t) \<longrightarrow> Q k"
proof (rule foldE_invariant [where P = "\<lambda>s. \<forall>k t. map_of (indirections s) k = Some (Some t) \<longrightarrow> Q k",
        OF addBundle_Inr(1) [OF run]])
  show "\<forall>k t. map_of (indirections (st\<lparr>bundleToModules := (bundleToModules st)(bndl \<mapsto> ms)\<rparr>)) k
          = Some (Some t) \<longrightarrow> Q k"
    using inv by simp
next
  fix x s s'
  assume "x \<in> set ms" "\<forall>k t. map_of (indirections s) k = Some (Some t) \<longrightarrow> Q k"
    "addModule keys bndl x s = Inr s'"
  then show "\<forall>k t. map_of (indirections s') k = Some (Some t) \<longrightarrow> Q k"
    using new addModule_aliases [of keys bndl x s s' Q] by blast
qed

lemma firstLoop_aliases:
  assumes run: "foldE (addBundle keys) mapping emptyBuild = Inr st"
    and new: "\<forall>(bndl, ms)\<in>set mapping. \<forall>x\<in>set ms. isAlias x \<longrightarrow> Q (moduleNameOf x)"
  shows "\<forall>k t. map_of (indirections st) k = Some (Some t) \<longrightarrow> Q k"
proof (rule foldE_invariant [where P = "\<lambda>s. \<forall>k t. map_of (indirections s) k = Some (Some t) \<longrightarrow> Q k",
        OF run])
  show "\<forall>k t. map_of (indirections emptyBuild) k = Some (Some t) \<longrightarrow> Q k"
    by (simp add: emptyBuild_def)
next
  fix x s s'
  assume x: "x \<in> set mapping" and s: "\<forall>k t. map_of (indirections s) k = Some (Some t) \<longrightarrow> Q k"
    and r: "addBundle keys x s = Inr s'"
  obtain bndl ms where e: "x = (bndl, ms)" by (cases x)
  from x new e have "\<forall>x\<in>set ms. isAlias x \<longrightarrow> Q (moduleNameOf x)" by blast
  from addBundle_aliases [OF r [unfolded e] s this]
  show "\<forall>k t. map_of (indirections s') k = Some (Some t) \<longrightarrow> Q k" .
qed

section \<open>The second loop of associationsForSimpleMapping\<close>

lemma getIndirection_entry:
  assumes "distinct (map fst ind)" and "(k, t) \<in> set ind"
  shows "getIndirection ind k = t"
  using assms by (simp add: getIndirection_def)

lemma resolveReal_terminal:
  assumes "resolveReal ind n seen real nxt = Inr r"
    and "nxt = None \<longrightarrow> getIndirection ind real = None"
  shows "getIndirection ind r = None"
  using assms
proof (induction ind n seen real nxt rule: resolveReal.induct)
  case (1 ind moduleName seen real)
  then show ?case by simp
next
  case (2 ind moduleName seen real nx)
  then show ?case by (auto split: if_splits)
qed

lemma resolveIndirection_step:
  assumes d: "distinct (map fst ind)" and ent: "(k, t) \<in> set ind"
    and run: "resolveIndirection ind (k, t) m1 = Inr m2"
    and inv: "\<forall>x. m1 x = m0 x \<or> (\<exists>v. resolvedTo ind m0 x v \<and> m1 x = Some v)"
  shows "\<exists>v. resolvedTo ind m0 k v \<and> m2 = m1(k \<mapsto> v)"
proof -
  from run obtain r where r: "resolveReal ind k {k} k t = Inr r"
    and m2: "m2 = m1(k \<mapsto> (case m1 r of Some b \<Rightarrow> b | None \<Rightarrow> r))"
    by (auto simp: resolveIndirection_def split: sum.splits)
  have fin: "getIndirection ind r = None"
    using resolveReal_terminal [OF r] getIndirection_entry [OF d ent] by simp
  let ?v = "case m0 r of Some b \<Rightarrow> b | None \<Rightarrow> r"
  have "(case m1 r of Some b \<Rightarrow> b | None \<Rightarrow> r) = ?v"
  proof -
    from inv have "m1 r = m0 r \<or> (\<exists>v. resolvedTo ind m0 r v \<and> m1 r = Some v)" by blast
    then show ?thesis
    proof
      assume "m1 r = m0 r" then show ?thesis by simp
    next
      assume "\<exists>v. resolvedTo ind m0 r v \<and> m1 r = Some v"
      then obtain v t' r' where v: "m1 r = Some v" "(r, t') \<in> set ind"
        "resolveReal ind r {r} r t' = Inr r'" "v = (case m0 r' of Some b \<Rightarrow> b | None \<Rightarrow> r')"
        unfolding resolvedTo_def by blast
      from getIndirection_entry [OF d v(2)] fin have "t' = None" by simp
      with v(3) have "r' = r" by simp
      with v(4) have "v = ?v" by (simp split: option.splits)
      with v(1) show ?thesis by simp
    qed
  qed
  with m2 have "m2 = m1(k \<mapsto> ?v)" by simp
  moreover have "resolvedTo ind m0 k ?v"
    unfolding resolvedTo_def using ent r fin by blast
  ultimately show ?thesis by blast
qed

lemma secondLoop_aux:
  assumes d: "distinct (map fst ind)"
  shows "foldE (resolveIndirection ind) ks m1 = Inr m \<Longrightarrow> ind = ps @ ks \<Longrightarrow>
     (\<forall>x. m1 x = m0 x \<or> (\<exists>v. resolvedTo ind m0 x v \<and> m1 x = Some v)) \<Longrightarrow>
     (\<forall>x\<in>fst ` set ps. \<exists>v. resolvedTo ind m0 x v \<and> m1 x = Some v) \<Longrightarrow>
     (\<forall>x. m x = m0 x \<or> (\<exists>v. resolvedTo ind m0 x v \<and> m x = Some v)) \<and>
     (\<forall>x\<in>fst ` set ind. \<exists>v. resolvedTo ind m0 x v \<and> m x = Some v)"
proof (induction ks arbitrary: ps m1)
  case Nil
  then show ?case by simp
next
  case (Cons e ks)
  obtain k t where e: "e = (k, t)" by (cases e)
  from Cons.prems(1) obtain m2 where step: "resolveIndirection ind (k, t) m1 = Inr m2"
    and rest: "foldE (resolveIndirection ind) ks m2 = Inr m"
    by (auto simp: e split: sum.splits)
  have ent: "(k, t) \<in> set ind" using Cons.prems(2) e by simp
  from resolveIndirection_step [OF d ent step Cons.prems(3)]
  obtain v where v: "resolvedTo ind m0 k v" "m2 = m1(k \<mapsto> v)" by blast
  have ind': "ind = (ps @ [e]) @ ks" using Cons.prems(2) by simp
  have inv2: "\<forall>x. m2 x = m0 x \<or> (\<exists>v. resolvedTo ind m0 x v \<and> m2 x = Some v)"
    using Cons.prems(3) v by auto
  have done2: "\<forall>x\<in>fst ` set (ps @ [e]). \<exists>v. resolvedTo ind m0 x v \<and> m2 x = Some v"
    using Cons.prems(4) v e by auto
  from Cons.IH [OF rest ind' inv2 done2] show ?case .
qed

lemma secondLoop_result:
  assumes d: "distinct (map fst ind)"
    and run: "foldE (resolveIndirection ind) ind m0 = Inr m"
  shows "k \<in> fst ` set ind \<Longrightarrow> \<exists>v. resolvedTo ind m0 k v \<and> m k = Some v"
    and "k \<notin> fst ` set ind \<Longrightarrow> m k = m0 k"
proof -
  have a: "(\<forall>x. m x = m0 x \<or> (\<exists>v. resolvedTo ind m0 x v \<and> m x = Some v)) \<and>
     (\<forall>x\<in>fst ` set ind. \<exists>v. resolvedTo ind m0 x v \<and> m x = Some v)"
    by (rule secondLoop_aux [OF d run, of "[]"]) auto
  then show "k \<in> fst ` set ind \<Longrightarrow> \<exists>v. resolvedTo ind m0 k v \<and> m k = Some v" by blast
  have "\<not> resolvedTo ind m0 k v" if "k \<notin> fst ` set ind" for v
    using that unfolding resolvedTo_def by force
  with a show "k \<notin> fst ` set ind \<Longrightarrow> m k = m0 k" by blast
qed

section \<open>Tables of a simple mapping\<close>

lemma associations_parts:
  assumes "associationsForSimpleMapping mapping = Inr (b2m, m2b)"
  obtains st where "foldE (addBundle (map fst mapping)) mapping emptyBuild = Inr st"
    and "foldE (resolveIndirection (indirections st)) (indirections st) (moduleToBundle st) = Inr m2b"
    and "b2m = bundleToModules st"
  using assms unfolding associationsForSimpleMapping_def
  by (auto split: sum.splits)

lemma staticAssociatorFor_Inr:
  assumes "staticAssociatorFor mapping = Inr A"
  obtains b2m m2b where "associationsForSimpleMapping mapping = Inr (b2m, m2b)"
    and "A = StaticAssociator (b2m, m2b) IdentityAssociator"
  using assms unfolding staticAssociatorFor_def
  by (auto split: sum.splits)

lemma preferredPath_static_identity:
  "preferredPath (StaticAssociator (b2m, m2b) IdentityAssociator) p =
     (case m2b p of Some b \<Rightarrow> b | None \<Rightarrow> p)"
  by (simp split: option.splits)

lemma secondLoop_terminal:
  assumes d: "distinct (map fst ind)"
    and run: "foldE (resolveIndirection ind) ind m0 = Inr m"
    and dom0: "\<forall>x b. m0 x = Some b \<longrightarrow> x \<in> fst ` set ind"
    and fin: "getIndirection ind x = None"
  shows "(case m x of Some b \<Rightarrow> b | None \<Rightarrow> x) = (case m0 x of Some b \<Rightarrow> b | None \<Rightarrow> x)"
proof (cases "x \<in> fst ` set ind")
  case True
  from secondLoop_result(1) [OF d run True]
  obtain t r where v: "(x, t) \<in> set ind" "resolveReal ind x {x} x t = Inr r"
    "m x = Some (case m0 r of Some b \<Rightarrow> b | None \<Rightarrow> r)"
    unfolding resolvedTo_def by blast
  from getIndirection_entry [OF d v(1)] fin have "t = None" by simp
  with v(2) have "r = x" by simp
  with v(3) show ?thesis by (simp split: option.splits)
next
  case False
  from secondLoop_result(2) [OF d run False] have "m x = m0 x" .
  then show ?thesis by simp
qed

lemma secondLoop_value:
  assumes d: "distinct (map fst ind)"
    and run: "foldE (resolveIndirection ind) ind m0 = Inr m"
    and dom0: "\<forall>x b. m0 x = Some b \<longrightarrow> x \<in> fst ` set ind"
  shows "\<exists>r. getIndirection ind r = None \<and>
           (case m p of Some b \<Rightarrow> b | None \<Rightarrow> p) = (case m0 r of Some b \<Rightarrow> b | None \<Rightarrow> r) \<and>
           (p \<notin> fst ` set ind \<longrightarrow> r = p) \<and>
           (\<forall>t. (p, t) \<in> set ind \<longrightarrow> resolveReal ind p {p} p t = Inr r)"
proof (cases "p \<in> fst ` set ind")
  case True
  from secondLoop_result(1) [OF d run True]
  obtain t r where v: "(p, t) \<in> set ind" "resolveReal ind p {p} p t = Inr r"
    "getIndirection ind r = None"
    "m p = Some (case m0 r of Some b \<Rightarrow> b | None \<Rightarrow> r)"
    unfolding resolvedTo_def by blast
  have same: "\<forall>t'. (p, t') \<in> set ind \<longrightarrow> resolveReal ind p {p} p t' = Inr r"
    using getIndirection_entry [OF d] getIndirection_entry [OF d v(1)] v(2) by metis
  have "getIndirection ind r = None \<and>
           (case m p of Some b \<Rightarrow> b | None \<Rightarrow> p) = (case m0 r of Some b \<Rightarrow> b | None \<Rightarrow> r) \<and>
           (p \<notin> fst ` set ind \<longrightarrow> r = p) \<and>
           (\<forall>t. (p, t) \<in> set ind \<longrightarrow> resolveReal ind p {p} p t = Inr r)"
    using v(3,4) True same by simp
  then show ?thesis ..
next
  case False
  from secondLoop_result(2) [OF d run False] have mp: "m p = m0 p" .
  have "m0 p = None" using dom0 False by (cases "m0 p") auto
  moreover have "getIndirection ind p = None"
    using False by (auto simp: getIndirection_def split: option.splits dest: map_of_SomeD intro: rev_image_eqI)
  moreover have "\<forall>t. (p, t) \<notin> set ind"
    using False by (auto intro: rev_image_eqI)
  ultimately have "getIndirection ind p = None \<and>
           (case m p of Some b \<Rightarrow> b | None \<Rightarrow> p) = (case m0 p of Some b \<Rightarrow> b | None \<Rightarrow> p) \<and>
           (p \<notin> fst ` set ind \<longrightarrow> p = p) \<and>
           (\<forall>t. (p, t) \<in> set ind \<longrightarrow> resolveReal ind p {p} p t = Inr p)"
    using mp by simp
  then show ?thesis ..
qed

lemma aliasNames_member:
  assumes "(bndl, ms) \<in> set mapping" and "x \<in> set ms" and "isAlias x"
  shows "moduleNameOf x \<in> set (aliasNames mapping)"
  using assms unfolding aliasNames_def by force

lemma firstLoop_alias_names:
  assumes run: "foldE (addBundle keys) mapping emptyBuild = Inr st"
    and al: "map_of (indirections st) k = Some (Some t)"
  shows "k \<in> set (aliasNames mapping)"
proof -
  have "\<forall>(bndl, ms)\<in>set mapping. \<forall>x\<in>set ms. isAlias x \<longrightarrow>
          moduleNameOf x \<in> set (aliasNames mapping)"
    using aliasNames_member by blast
  from firstLoop_aliases [OF run, where Q = "\<lambda>k. k \<in> set (aliasNames mapping)", OF this] al
  show ?thesis by blast
qed

lemma buildInv_dom:
  assumes "buildInv keys st"
  shows "\<forall>x b. moduleToBundle st x = Some b \<longrightarrow> x \<in> fst ` set (indirections st)"
proof (intro allI impI)
  fix x b assume "moduleToBundle st x = Some b"
  with assms have "map_of (indirections st) x = Some None" unfolding buildInv_def by blast
  then have "(x, None) \<in> set (indirections st)" by (rule map_of_SomeD)
  then show "x \<in> fst ` set (indirections st)" by (rule rev_image_eqI) simp
qed

lemma static_preferredPath_idem:
  assumes A: "staticAssociatorFor mapping = Inr A"
    and na: "set (aliasNames mapping) \<inter> fst ` set mapping = {}"
  shows "preferredPath A (preferredPath A p) = preferredPath A p"
proof -
  from A obtain b2m m where t: "associationsForSimpleMapping mapping = Inr (b2m, m)"
    and A': "A = StaticAssociator (b2m, m) IdentityAssociator"
    by (rule staticAssociatorFor_Inr)
  from t obtain st where one: "foldE (addBundle (map fst mapping)) mapping emptyBuild = Inr st"
    and two: "foldE (resolveIndirection (indirections st)) (indirections st) (moduleToBundle st) = Inr m"
    by (rule associations_parts)
  let ?ind = "indirections st" and ?m0 = "moduleToBundle st"
  have inv: "buildInv (map fst mapping) st" by (rule firstLoop_buildInv [OF one])
  then have d: "distinct (map fst ?ind)" by (simp add: buildInv_def)
  note dom0 = buildInv_dom [OF inv]
  from secondLoop_value [OF d two dom0, of p]
  obtain r where r: "getIndirection ?ind r = None"
    "(case m p of Some b \<Rightarrow> b | None \<Rightarrow> p) = (case ?m0 r of Some b \<Rightarrow> b | None \<Rightarrow> r)"
    by blast
  let ?v = "case ?m0 r of Some b \<Rightarrow> b | None \<Rightarrow> r"
  have fixd: "getIndirection ?ind ?v = None \<and> (case ?m0 ?v of Some b \<Rightarrow> b | None \<Rightarrow> ?v) = ?v"
  proof (cases "?m0 r")
    case None
    with r(1) show ?thesis by simp
  next
    case (Some b)
    with inv have b: "b \<in> set (map fst mapping)" unfolding buildInv_def by blast
    have "getIndirection ?ind b = None"
    proof (rule ccontr)
      assume "getIndirection ?ind b \<noteq> None"
      then obtain t where "map_of ?ind b = Some (Some t)"
        by (auto simp: getIndirection_def split: option.splits)
      from firstLoop_alias_names [OF one this] b na show False by auto
    qed
    moreover have "(case ?m0 b of Some b' \<Rightarrow> b' | None \<Rightarrow> b) = b"
    proof (cases "?m0 b")
      case None
      then show ?thesis by simp
    next
      case (Some b')
      with inv b have "b = b'" unfolding buildInv_def by blast
      with Some show ?thesis by simp
    qed
    ultimately show ?thesis using Some by (simp split: option.splits)
  qed
  from secondLoop_terminal [OF d two dom0 conjunct1 [OF fixd]] conjunct2 [OF fixd]
  have "(case m ?v of Some b \<Rightarrow> b | None \<Rightarrow> ?v) = ?v" by simp
  then have vv: "preferredPath A ?v = ?v"
    unfolding A' preferredPath_static_identity .
  have pv: "preferredPath A p = ?v"
    unfolding A' preferredPath_static_identity by (rule r(2))
  show ?thesis
    unfolding pv by (rule vv)
qed



section \<open>Alias chains\<close>

lemmas build_eval =
  staticPreferredPath_def staticAssociatedModulePaths_def staticAssociatorFor_def
  associationsForSimpleMapping_def addBundle_def addModule_def emptyBuild_def
  resolveIndirection_def getIndirection_def aliasNames_def Let_def

lemma replaceSuffix_fixed: "replaceSuffix b s = s \<longleftrightarrow> \<not> suffixTest b s"
  by (induction s arbitrary: b) auto

lemma preferredPath_simple: "preferredPath SimpleAssociator p = replaceSuffix True p"
  by (simp add: simpleModulePaths_def Let_def)






section \<open>Canonical paths and bundle membership\<close>

text \<open>
  Claim C4, as amended. \<open>preferredPath\<close> is idempotent for the \<open>IdentityAssociator\<close>; for
  a \<open>StaticAssociator\<close> over the tables of a simple mapping, with the identity as its
  fallback, when no bundle name of the mapping is declared as an alias; and for the
  \<open>SimpleAssociator\<close> at exactly those paths whose preferred path no longer matches the
  suffix pattern (a second \<open>.js\<close>, \<open>/index.js\<close> or trailing slash is stripped by a second
  application only).
\<close>

theorem preferredPath_idempotent:
  "preferredPath IdentityAssociator (preferredPath IdentityAssociator p) =
     preferredPath IdentityAssociator p \<and>
   (preferredPath SimpleAssociator (preferredPath SimpleAssociator p) =
      preferredPath SimpleAssociator p
    \<longleftrightarrow> \<not> suffixTest True (preferredPath SimpleAssociator p)) \<and>
   (\<forall>A. staticAssociatorFor mapping = Inr A \<and>
        set (aliasNames mapping) \<inter> fst ` set mapping = {} \<longrightarrow>
        preferredPath A (preferredPath A p) = preferredPath A p)"
proof (intro conjI allI impI)
  show "preferredPath IdentityAssociator (preferredPath IdentityAssociator p) =
     preferredPath IdentityAssociator p" by simp
next
  show "preferredPath SimpleAssociator (preferredPath SimpleAssociator p) =
      preferredPath SimpleAssociator p
    \<longleftrightarrow> \<not> suffixTest True (preferredPath SimpleAssociator p)"
    unfolding preferredPath_simple by (rule replaceSuffix_fixed)
next
  fix A
  assume "staticAssociatorFor mapping = Inr A \<and>
        set (aliasNames mapping) \<inter> fst ` set mapping = {}"
  then show "preferredPath A (preferredPath A p) = preferredPath A p"
    using static_preferredPath_idem by blast
qed

theorem preferredPath_idempotent_witness:
  "set (aliasNames chainIntoBundle) \<inter> fst ` set chainIntoBundle = {} \<and>
   (\<exists>A. staticAssociatorFor chainIntoBundle = Inr A \<and>
        preferredPath A ''a'' = ''/x.js'' \<and>
        preferredPath A (preferredPath A ''a'') = preferredPath A ''a'') \<and>
   preferredPath SimpleAssociator ''a/index.js'' = ''a'' \<and>
   \<not> suffixTest True ''a'' \<and>
   preferredPath SimpleAssociator (preferredPath SimpleAssociator ''a/index.js'') =
     preferredPath SimpleAssociator ''a/index.js''"
proof -
  have na: "set (aliasNames chainIntoBundle) \<inter> fst ` set chainIntoBundle = {}"
    by (simp add: aliasNames_def chainIntoBundle_def)
  obtain A where A: "staticAssociatorFor chainIntoBundle = Inr A"
    by (simp add: build_eval chainIntoBundle_def)
  have "staticPreferredPath chainIntoBundle ''a'' = Inr ''/x.js''"
    by (simp add: build_eval chainIntoBundle_def)
  then have pa: "preferredPath A ''a'' = ''/x.js''"
    using A by (simp add: staticPreferredPath_def)
  have s1: "preferredPath SimpleAssociator ''a/index.js'' = ''a''"
    by (simp add: simpleModulePaths_def suffixMatches_def isLineTerminator_def)
  have s2: "\<not> suffixTest True ''a''"
    by (simp add: suffixMatches_def)
  note inst = preferredPath_idempotent [of "''a/index.js''" chainIntoBundle]
  have idemA: "preferredPath A (preferredPath A ''a'') = preferredPath A ''a''"
    using preferredPath_idempotent [of "''a''" chainIntoBundle] na A by blast
  have idemS: "preferredPath SimpleAssociator (preferredPath SimpleAssociator ''a/index.js'') =
     preferredPath SimpleAssociator ''a/index.js''"
    using inst s1 s2 by simp
  from na A pa idemA s1 s2 idemS show ?thesis by blast
qed

theorem preferredPath_idempotent_counterexample:
  "preferredPath SimpleAssociator ''a.js.js'' = ''a.js'' \<and>
   preferredPath SimpleAssociator (preferredPath SimpleAssociator ''a.js.js'') = ''a'' \<and>
   headerOf (handle exampleEnvironment simpleServer (pathRequest ''/library/a.js.js'') False)
     ''Location'' = Some ''a.js?callback=cb'' \<and>
   headerOf (handle exampleEnvironment simpleServer (pathRequest ''/library/a.js'') False)
     ''Location'' = Some ''a?callback=cb''"
proof -
  have 1: "preferredPath SimpleAssociator ''a.js.js'' = ''a.js''"
    "preferredPath SimpleAssociator ''a.js'' = ''a''"
    by (simp_all add: simpleModulePaths_def suffixMatches_def isLineTerminator_def)
  have 2: "headerOf (handle exampleEnvironment simpleServer (pathRequest ''/library/a.js.js'') False)
     ''Location'' = Some ''a.js?callback=cb''"
    by (simp add: handle_def modulePathOf_def startsWith_def jsString_def truthy_def
        serverPreferredPath_def matchesCallbackExpression_def isCallbackChar_def isAlphanumeric_def
        simpleServer_def exampleServer_def exampleEnvironment_def pathRequest_def
        simpleModulePaths_def suffixMatches_def isLineTerminator_def Let_def
        redirectLocation_def relativePath_def)
  have 3: "headerOf (handle exampleEnvironment simpleServer (pathRequest ''/library/a.js'') False)
     ''Location'' = Some ''a?callback=cb''"
    by (simp add: handle_def modulePathOf_def startsWith_def jsString_def truthy_def
        serverPreferredPath_def matchesCallbackExpression_def isCallbackChar_def isAlphanumeric_def
        simpleServer_def exampleServer_def exampleEnvironment_def pathRequest_def
        simpleModulePaths_def suffixMatches_def isLineTerminator_def Let_def
        redirectLocation_def relativePath_def)
  from 1 2 3 show ?thesis by simp
qed

text \<open>
  Claim C10, as amended. For the \<open>StaticAssociator\<close> built from
  \<open>associationsForSimpleMapping(mapping)\<close> with the identity fallback (so the mapping has
  no alias cycle), when no bundle name of the mapping is declared as an alias, the
  associated module paths of a module path and of its preferred path are the same list.
\<close>

theorem associatedModulePaths_of_preferredPath:
  assumes "staticAssociatorFor mapping = Inr A"
    and "set (aliasNames mapping) \<inter> fst ` set mapping = {}"
  shows "associatedModulePaths A p = associatedModulePaths A (preferredPath A p)"
proof -
  from assms(1) obtain b2m m where A': "A = StaticAssociator (b2m, m) IdentityAssociator"
    by (rule staticAssociatorFor_Inr)
  have idem: "preferredPath (StaticAssociator (b2m, m) IdentityAssociator)
                (preferredPath (StaticAssociator (b2m, m) IdentityAssociator) p) =
              preferredPath (StaticAssociator (b2m, m) IdentityAssociator) p"
    using static_preferredPath_idem [OF assms] unfolding A' .
  show ?thesis
    unfolding A' associatedModulePaths.simps Let_def idem ..
qed

theorem associatedModulePaths_of_preferredPath_witness:
  "set (aliasNames chainIntoBundle) \<inter> fst ` set chainIntoBundle = {} \<and>
   staticPreferredPath chainIntoBundle ''a'' = Inr ''/x.js'' \<and>
   staticAssociatedModulePaths chainIntoBundle ''a'' =
     staticAssociatedModulePaths chainIntoBundle ''/x.js''"
proof -
  have na: "set (aliasNames chainIntoBundle) \<inter> fst ` set chainIntoBundle = {}"
    by (simp add: aliasNames_def chainIntoBundle_def)
  obtain A where A: "staticAssociatorFor chainIntoBundle = Inr A"
    by (simp add: build_eval chainIntoBundle_def)
  have pa: "staticPreferredPath chainIntoBundle ''a'' = Inr ''/x.js''"
    by (simp add: build_eval chainIntoBundle_def)
  then have "preferredPath A ''a'' = ''/x.js''"
    using A by (simp add: staticPreferredPath_def)
  with associatedModulePaths_of_preferredPath [OF A na, of "''a''"]
  have "associatedModulePaths A ''a'' = associatedModulePaths A ''/x.js''" by simp
  then have "staticAssociatedModulePaths chainIntoBundle ''a'' =
     staticAssociatedModulePaths chainIntoBundle ''/x.js''"
    using A by (simp add: staticAssociatedModulePaths_def)
  with na pa show ?thesis by simp
qed

theorem associatedModulePaths_of_preferredPath_counterexample:
  "staticAssociatedModulePaths aliasedBundle ''app/util.js'' =
     Inr [Module ''app/util.js'', Alias ''app'' ''app/main.js''] \<and>
   staticPreferredPath aliasedBundle ''app/util.js'' = Inr ''app'' \<and>
   staticAssociatedModulePaths aliasedBundle ''app'' = Inr [Module ''app/main.js'']"
  by (simp add: build_eval aliasedBundle_def)

section \<open>Merged headers\<close>













lemmas header_eval =
  parseDate_def exampleDateParse_def exampleToUTCString_def date0_def date1_def date2_def
  maxAgeOf_def truthy_def jsString_def isDigit_def parseDecimal_def


section \<open>Conditional requests\<close>

lemma notModifiedSince_iff:
  assumes "lastModified \<noteq> Some 0"
  shows "notModifiedSince lastModified modifiedSince \<longleftrightarrow>
     (\<exists>l m. lastModified = Some l \<and> modifiedSince = Some m \<and> l \<le> m)"
  using assms by (auto simp: notModifiedSince_def split: option.splits)

lemma etagMatches_iff:
  "etagMatches requestHeaders responseHeaders \<longleftrightarrow>
     (\<exists>e. e \<noteq> [] \<and> requestHeaders ''etag'' = Some e \<and> responseHeaders ''etag'' = Some e)"
  by (auto simp: etagMatches_def truthy_def)

text \<open>
  Claim C5, as amended. \<open>notModified\<close> holds if and only if the request has a non-empty
  \<open>etag\<close> that equals the response's \<open>etag\<close> exactly, or the response's \<open>last-modified\<close>
  parses as a date and is at most the request's \<open>if-modified-since\<close>, which parses too.
  This is stated for a \<open>last-modified\<close> other than the instant 0 of the epoch.
\<close>

theorem notModified_iff:
  assumes "parseDate P (responseHeaders ''last-modified'') \<noteq> Some 0"
  shows "notModified P requestHeaders responseHeaders \<longleftrightarrow>
     (\<exists>e. e \<noteq> [] \<and> requestHeaders ''etag'' = Some e \<and> responseHeaders ''etag'' = Some e) \<or>
     (\<exists>l m. parseDate P (responseHeaders ''last-modified'') = Some l \<and>
            parseDate P (requestHeaders ''if-modified-since'') = Some m \<and> l \<le> m)"
  unfolding notModified_def Let_def etagMatches_iff notModifiedSince_iff [OF assms] ..

theorem notModified_iff_witness:
  "parseDate exampleDateParse ([''last-modified'' \<mapsto> date1] ''last-modified'') = Some 1000 \<and>
   parseDate exampleDateParse ([''if-modified-since'' \<mapsto> date2] ''if-modified-since'') = Some 2000 \<and>
   notModified exampleDateParse [''if-modified-since'' \<mapsto> date2] [''last-modified'' \<mapsto> date1] \<and>
   \<not> notModified exampleDateParse [''if-modified-since'' \<mapsto> date1] [''last-modified'' \<mapsto> date2] \<and>
   notModified exampleDateParse [''etag'' \<mapsto> ''v1''] [''etag'' \<mapsto> ''v1'']"
proof -
  have p: "parseDate exampleDateParse (Some date1) = Some 1000"
    "parseDate exampleDateParse (Some date2) = Some 2000"
    "parseDate exampleDateParse None = None"
    by (simp_all add: header_eval)
  have 1: "notModified exampleDateParse [''if-modified-since'' \<mapsto> date2] [''last-modified'' \<mapsto> date1]"
    using notModified_iff [of exampleDateParse "[''last-modified'' \<mapsto> date1]" "[''if-modified-since'' \<mapsto> date2]"]
    by (simp add: p)
  have 2: "\<not> notModified exampleDateParse [''if-modified-since'' \<mapsto> date1] [''last-modified'' \<mapsto> date2]"
    using notModified_iff [of exampleDateParse "[''last-modified'' \<mapsto> date2]" "[''if-modified-since'' \<mapsto> date1]"]
    by (simp add: p)
  have 3: "notModified exampleDateParse [''etag'' \<mapsto> ''v1''] [''etag'' \<mapsto> ''v1'']"
    using notModified_iff [of exampleDateParse "[''etag'' \<mapsto> ''v1'']" "[''etag'' \<mapsto> ''v1'']"]
    by (simp add: p)
  from p(1,2) 1 2 3 show ?thesis by simp
qed

theorem notModified_counterexample:
  "\<not> notModified exampleDateParse [''etag'' \<mapsto> ''''] [''etag'' \<mapsto> ''''] \<and>
   parseDate exampleDateParse ([''last-modified'' \<mapsto> date0] ''last-modified'') = Some 0 \<and>
   parseDate exampleDateParse ([''if-modified-since'' \<mapsto> date1] ''if-modified-since'') = Some 1000 \<and>
   \<not> notModified exampleDateParse [''if-modified-since'' \<mapsto> date1] [''last-modified'' \<mapsto> date0]"
  by (simp add: notModified_def etagMatches_def notModifiedSince_def header_eval)





section \<open>The HEAD phase of a bundle\<close>

lemmas handle_eval =
  handle_def modulePathOf_def startsWith_def jsString_def truthy_def serverPreferredPath_def
  serveBundle_def resourceURIForModulePath_def headPhase_def reduceStatus_def reduceStep_def
  headBranch_def respondBundle_def bundleHeaders_def selectProperties_def HEADER_WHITELIST_def
  matchesCallbackExpression_def isCallbackChar_def isAlphanumeric_def
  exampleEnvironment_def exampleServer_def exampleBackend_def
  notModified_def etagMatches_def notModifiedSince_def mergeHeaders_def latest_def earliest_def
  smallestMaxAge_def Let_def map_add_def








section \<open>Redirects to the preferred path\<close>

lemma respondBundle_not_redirect:
  "statusOf (respondBundle env requestHeaders status headers content) \<noteq> Some 307"
  by (simp add: respondBundle_def Let_def)

lemma serveBundle_not_redirect:
  "statusOf (serveBundle env srv method requestHeaders cb p) \<noteq> Some 307"
  unfolding serveBundle_def Let_def
  by (simp add: respondBundle_not_redirect split: sum.splits prod.splits branch.splits option.splits)

lemma redirectLocation_query:
  "redirectLocation srv path preferred query = redirectLocation srv path preferred [] @ query"
  by (simp add: redirectLocation_def Let_def)

lemma handle_bundle_request:
  assumes url: "requestURL rq = Some url"
    and mp: "modulePathOf srv (normalizePath env (pathname url)) = Inr (Some p)" and ne: "p \<noteq> []"
    and meth: "requestMethod rq = ''GET'' \<or> requestMethod rq = ''HEAD''"
    and cb: "callback url = Some cb" and ok: "matchesCallbackExpression cb"
  shows "handle env srv rq hasNext =
     (if serverPreferredPath srv p \<noteq> p
      then Response 307
             [''Content-Type'' \<mapsto> ''text/plain; charset=utf-8'',
              ''Location'' \<mapsto> redirectLocation srv (normalizePath env (pathname url))
                               (serverPreferredPath srv p) (search url)]
             (Some ''307: Resource moved temporarily.'')
      else serveBundle env srv (requestMethod rq)
             ([''user-agent'' \<mapsto> ''yajsml'', ''accept'' \<mapsto> ''*/*''] ++
              selectProperties (requestHeadersOf rq) [''if-modified-since'', ''cache-control''])
             cb p)"
proof -
  from ok have cbne: "cb \<noteq> []" by (simp add: matchesCallbackExpression_def)
  have t: "truthy (Some p)" using ne by (simp add: truthy_def)
  from meth show ?thesis
  proof
    assume g: "requestMethod rq = ''GET''"
    show ?thesis
      unfolding handle_def url option.case Let_def mp sum.case cb g
      using t cbne ok by (simp add: jsString_def)
  next
    assume h: "requestMethod rq = ''HEAD''"
    show ?thesis
      unfolding handle_def url option.case Let_def mp sum.case cb h
      using t cbne ok by (simp add: jsString_def)
  qed
qed

text \<open>
  Claim C8. For a request with a valid callback whose path resolves to the module path
  \<open>p\<close> and whose method is GET or HEAD, \<open>handle\<close> answers 307 if and only if the
  preferred path of \<open>p\<close> differs from \<open>p\<close>; the \<open>Location\<close> of the redirect is the
  location of the preferred path followed by the query string of the request, unchanged.
\<close>

theorem redirect_iff_not_preferred:
  assumes "requestURL rq = Some url"
    and "modulePathOf srv (normalizePath env (pathname url)) = Inr (Some p)" and "p \<noteq> []"
    and "requestMethod rq = ''GET'' \<or> requestMethod rq = ''HEAD''"
    and "callback url = Some cb" and "matchesCallbackExpression cb"
  shows "(statusOf (handle env srv rq hasNext) = Some 307 \<longleftrightarrow> serverPreferredPath srv p \<noteq> p) \<and>
         (serverPreferredPath srv p \<noteq> p \<longrightarrow>
            headerOf (handle env srv rq hasNext) ''Location'' =
              Some (redirectLocation srv (normalizePath env (pathname url))
                      (serverPreferredPath srv p) [] @ search url))"
proof -
  note h = handle_bundle_request [OF assms, of hasNext]
  show ?thesis
  proof (cases "serverPreferredPath srv p \<noteq> p")
    case True
    with h show ?thesis
      by (simp add: redirectLocation_query [of srv _ _ "search url"])
  next
    case False
    with h serveBundle_not_redirect show ?thesis by simp
  qed
qed

theorem redirect_iff_not_preferred_witness:
  "modulePathOf exampleServer ''/library/b.js'' = Inr (Some ''b.js'') \<and>
   serverPreferredPath exampleServer ''b.js'' = ''a.js'' \<and>
   statusOf (handle exampleEnvironment exampleServer memberRequest False) = Some 307 \<and>
   headerOf (handle exampleEnvironment exampleServer memberRequest False) ''Location'' =
     Some ''a.js?callback=x&y=1'' \<and>
   serverPreferredPath exampleServer ''a.js'' = ''a.js'' \<and>
   statusOf (handle exampleEnvironment exampleServer (bundleRequest ''GET'' Map.empty) False) \<noteq> Some 307"
proof -
  have mpb: "modulePathOf exampleServer ''/library/b.js'' = Inr (Some ''b.js'')"
    and mpa: "modulePathOf exampleServer ''/library/a.js'' = Inr (Some ''a.js'')"
    by (simp_all add: modulePathOf_def startsWith_def jsString_def truthy_def exampleServer_def)
  have ppb: "serverPreferredPath exampleServer ''b.js'' = ''a.js''"
    and ppa: "serverPreferredPath exampleServer ''a.js'' = ''a.js''"
    by (simp_all add: serverPreferredPath_def exampleServer_def)
  have cbs: "matchesCallbackExpression ''x''" "matchesCallbackExpression ''cb''"
    by (simp_all add: matchesCallbackExpression_def isCallbackChar_def isAlphanumeric_def)
  have loc: "redirectLocation exampleServer ''/library/b.js'' ''a.js'' [] = ''a.js''"
    by (simp add: redirectLocation_def exampleServer_def jsString_def truthy_def relativePath_def)
  have b: "statusOf (handle exampleEnvironment exampleServer memberRequest False) = Some 307 \<and>
      headerOf (handle exampleEnvironment exampleServer memberRequest False) ''Location'' =
        Some ''a.js?callback=x&y=1''"
    using redirect_iff_not_preferred [of memberRequest
        "\<lparr>pathname = ''/library/b.js'', search = ''?callback=x&y=1'', callback = Some ''x''\<rparr>"
        exampleServer exampleEnvironment "''b.js''" "''x''" False]
    by (simp add: memberRequest_def exampleEnvironment_def mpb ppb cbs loc)
  have a: "statusOf (handle exampleEnvironment exampleServer (bundleRequest ''GET'' Map.empty) False)
      \<noteq> Some 307"
    using redirect_iff_not_preferred [of "bundleRequest ''GET'' Map.empty"
        "\<lparr>pathname = ''/library/a.js'', search = ''?callback=cb'', callback = Some ''cb''\<rparr>"
        exampleServer exampleEnvironment "''a.js''" "''cb''" False]
    by (simp add: bundleRequest_def exampleEnvironment_def mpa ppa cbs)
  from mpb ppb b ppa a show ?thesis by simp
qed

section \<open>The packaged bundle\<close>

lemma update_fresh:
  assumes "k \<notin> fst ` set al"
  shows "AList.update k v al = al @ [(k, v)]"
  using assms by (induction al) auto

lemma foldl_update_distinct:
  assumes "distinct (map fst (acc @ es))"
  shows "foldl (\<lambda>obj e. AList.update (fst e) (snd e) obj) acc es = acc @ es"
  using assms
proof (induction es arbitrary: acc)
  case Nil
  then show ?case by simp
next
  case (Cons e es)
  from Cons.prems have fresh: "fst e \<notin> fst ` set acc" by auto
  have step: "AList.update (fst e) (snd e) acc = acc @ [e]"
    using update_fresh [OF fresh, of "snd e"] by simp
  from Cons.prems have "distinct (map fst ((acc @ [e]) @ es))" by simp
  from Cons.IH [OF this] step show ?case by simp
qed

lemma fromEntries_distinct:
  assumes "distinct (map fst es)"
  shows "fromEntries es = es"
  using foldl_update_distinct [of "[]" es] assms by (simp add: fromEntries_def)

lemma entries_no_index:
  assumes "\<forall>e\<in>set obj. \<not> isArrayIndex (fst e)"
  shows "entries obj = obj"
proof -
  have "filter (\<lambda>e. isArrayIndex (fst e)) obj = []"
    using assms by (simp add: filter_empty_conv)
  moreover have "filter (\<lambda>e. \<not> isArrayIndex (fst e)) obj = obj"
    using assms by (simp add: filter_id_conv)
  ultimately show ?thesis by (simp add: entries_def)
qed

lemma moduleMapOf_keys:
  "map fst (map (\<lambda>i. (modulePaths ! i, bodyAt statuss contents i)) [0..<length modulePaths])
     = modulePaths"
  by (simp add: comp_def map_nth)

lemma entries_moduleMapOf:
  assumes d: "distinct modulePaths" and ni: "\<forall>p\<in>set modulePaths. \<not> isArrayIndex p"
  shows "entries (moduleMapOf modulePaths statuss contents) =
     map (\<lambda>i. (modulePaths ! i, bodyAt statuss contents i)) [0..<length modulePaths]"
proof -
  let ?es = "map (\<lambda>i. (modulePaths ! i, bodyAt statuss contents i)) [0..<length modulePaths]"
  have keys: "map fst ?es = modulePaths" by (rule moduleMapOf_keys)
  have "fromEntries ?es = ?es"
    by (rule fromEntries_distinct) (simp only: keys d)
  moreover have "\<forall>e\<in>set ?es. \<not> isArrayIndex (fst e)"
    using ni by auto
  ultimately show ?thesis
    by (simp add: moduleMapOf_def entries_no_index)
qed

lemma packagedDefine_nonempty: "packagedDefine JSONPCallback moduleMap \<noteq> []"
  by (simp add: packagedDefine_def)

text \<open>
  Claim C7, as amended. For a bundle whose member paths are pairwise distinct and none of
  which is an array index (a canonical decimal numeral below \<open>2^32 - 1\<close>), the packaged
  payload is the callback applied to an object literal with exactly one entry per member,
  in the order of the members: a member whose GET status is 200 has its body wrapped in a
  function of \<open>require\<close>, \<open>exports\<close> and \<open>module\<close>, and every other member has the
  value \<open>null\<close>.
\<close>

theorem packagedDefine_member_order:
  assumes "distinct modulePaths" and "\<forall>p\<in>set modulePaths. \<not> isArrayIndex p"
  shows
    "packagedDefine JSONPCallback (moduleMapOf modulePaths statuss contents) =
       JSONPCallback @ ''({'' @
       concat (map (\<lambda>i. moduleEntry (modulePaths ! i, bodyAt statuss contents i))
                 [0..<length modulePaths]) @
       ''});'' @ [CHR 0x0A] \<and>
     (\<forall>i. i < length statuss \<and> i < length contents \<and> statuss ! i = 200 \<longrightarrow>
          bodyAt statuss contents i = Some (contents ! i)) \<and>
     (\<forall>i. \<not> (i < length statuss \<and> statuss ! i = 200) \<longrightarrow> bodyAt statuss contents i = None) \<and>
     (\<forall>path. moduleEntry (path, None) =
        [CHR 0x22] @ escapeNonAlphanumerics path ''./-_'' @ [CHR 0x22] @ '': null,'' @ [CHR 0x0A]) \<and>
     (\<forall>path body. moduleEntry (path, Some body) =
        [CHR 0x22] @ escapeNonAlphanumerics path ''./-_'' @ [CHR 0x22] @ '': {'' @
        [CHR 0x22] @ ''(module '' @ escapeNonAlphanumerics path ''./-_'' @ '')'' @ [CHR 0x22] @
        '': function (require, exports, module) {'' @ body @ ''}}['' @
        [CHR 0x22] @ ''(module '' @ escapeNonAlphanumerics path ''./-_'' @ '')'' @ [CHR 0x22] @
        ''],'' @ [CHR 0x0A])"
proof (intro conjI allI impI)
  show "packagedDefine JSONPCallback (moduleMapOf modulePaths statuss contents) =
       JSONPCallback @ ''({'' @
       concat (map (\<lambda>i. moduleEntry (modulePaths ! i, bodyAt statuss contents i))
                 [0..<length modulePaths]) @
       ''});'' @ [CHR 0x0A]"
    unfolding packagedDefine_def entries_moduleMapOf [OF assms]
    by (simp add: comp_def)
next
  fix i assume "i < length statuss \<and> i < length contents \<and> statuss ! i = 200"
  then show "bodyAt statuss contents i = Some (contents ! i)" by (simp add: bodyAt_def)
next
  fix i assume "\<not> (i < length statuss \<and> statuss ! i = 200)"
  then show "bodyAt statuss contents i = None" by (simp add: bodyAt_def)
next
  fix path
  show "moduleEntry (path, None) =
        [CHR 0x22] @ escapeNonAlphanumerics path ''./-_'' @ [CHR 0x22] @ '': null,'' @ [CHR 0x0A]"
    by (simp add: moduleEntry_def Let_def)
next
  fix path body
  show "moduleEntry (path, Some body) =
        [CHR 0x22] @ escapeNonAlphanumerics path ''./-_'' @ [CHR 0x22] @ '': {'' @
        [CHR 0x22] @ ''(module '' @ escapeNonAlphanumerics path ''./-_'' @ '')'' @ [CHR 0x22] @
        '': function (require, exports, module) {'' @ body @ ''}}['' @
        [CHR 0x22] @ ''(module '' @ escapeNonAlphanumerics path ''./-_'' @ '')'' @ [CHR 0x22] @
        ''],'' @ [CHR 0x0A]"
    by (simp add: moduleEntry_def Let_def)
qed

lemmas entries_eval =
  moduleMapOf_def fromEntries_def entries_def bodyAt_def isArrayIndex_def isDigit_def parseDecimal_def

theorem packagedDefine_member_order_witness:
  "distinct [''a.js'', ''b.js'', ''c.js''] \<and>
   \<not> isArrayIndex ''a.js'' \<and> \<not> isArrayIndex ''b.js'' \<and> \<not> isArrayIndex ''c.js'' \<and>
   packagedDefine ''cb'' (moduleMapOf [''a.js'', ''b.js'', ''c.js''] [200, 404, 200]
       [''exports.a = 1;'', ''Not found'', ''exports.c = 3;'']) =
     ''cb({'' @
     moduleEntry (''a.js'', Some ''exports.a = 1;'') @
     moduleEntry (''b.js'', None) @
     moduleEntry (''c.js'', Some ''exports.c = 3;'') @
     ''});'' @ [CHR 0x0A] \<and>
   moduleEntry (''b.js'', None) = [CHR 0x22] @ ''b.js'' @ [CHR 0x22] @ '': null,'' @ [CHR 0x0A] \<and>
   bodyOf (handle exampleEnvironment exampleServer (bundleRequest ''GET'' Map.empty) False) =
     Some (packagedDefine ''cb'' (moduleMapOf [''a.js'', ''b.js'', ''c.js''] [200, 404, 200]
       [''exports.a = 1;'', ''Not found'', ''exports.c = 3;'']))"
proof -
  have d: "distinct [''a.js'', ''b.js'', ''c.js'']" by simp
  have ni: "\<not> isArrayIndex ''a.js''" "\<not> isArrayIndex ''b.js''" "\<not> isArrayIndex ''c.js''"
    by (simp_all add: isArrayIndex_def isDigit_def)
  then have ni': "\<forall>p\<in>set [''a.js'', ''b.js'', ''c.js'']. \<not> isArrayIndex p" by simp
  have up: "[0..<length [''a.js'', ''b.js'', ''c.js'']] = [0, 1, 2]"
    by (simp add: upt_rec)
  have 1: "packagedDefine ''cb'' (moduleMapOf [''a.js'', ''b.js'', ''c.js''] [200, 404, 200]
       [''exports.a = 1;'', ''Not found'', ''exports.c = 3;'']) =
     ''cb({'' @
     moduleEntry (''a.js'', Some ''exports.a = 1;'') @
     moduleEntry (''b.js'', None) @
     moduleEntry (''c.js'', Some ''exports.c = 3;'') @
     ''});'' @ [CHR 0x0A]"
    using conjunct1 [OF packagedDefine_member_order [OF d ni', of "''cb''" "[200, 404, 200]"
        "[''exports.a = 1;'', ''Not found'', ''exports.c = 3;'']"]]
    unfolding up by (simp add: bodyAt_def)
  have 2: "moduleEntry (''b.js'', None) = [CHR 0x22] @ ''b.js'' @ [CHR 0x22] @ '': null,'' @ [CHR 0x0A]"
    by (simp add: moduleEntry_def escapeNonAlphanumerics_def escapeChar_def isAlphanumeric_def)
  have 3: "bodyOf (handle exampleEnvironment exampleServer (bundleRequest ''GET'' Map.empty) False) =
     Some (packagedDefine ''cb'' (moduleMapOf [''a.js'', ''b.js'', ''c.js''] [200, 404, 200]
       [''exports.a = 1;'', ''Not found'', ''exports.c = 3;'']))"
    by (simp add: handle_eval header_eval bundleRequest_def pathsOf_def packagedDefine_nonempty)
  from d ni 1 2 3 show ?thesis by simp
qed

theorem packagedDefine_member_order_counterexample:
  "entries (moduleMapOf [''b.js'', ''7''] [200, 200] [''exports.b = 1;'', ''exports.n = 7;'']) =
     [(''7'', Some ''exports.n = 7;''), (''b.js'', Some ''exports.b = 1;'')] \<and>
   entries (moduleMapOf [''a.js'', ''a.js''] [200, 404] [''exports.a = 1;'', ''Not found'']) =
     [(''a.js'', None)]"
  by (simp add: entries_eval upt_rec)

end
